theory Spec2Isabelle
  imports Complex_Main
begin

section \<open>Numbers\<close>

text \<open>
  The visual computes with the \<^verbatim>\<open>number\<close> type of its language, IEEE 754 binary64.
  A finite double is the real number it denotes, and an operation of the language is
  the exact operation followed by rounding to the nearest double, ties to even:
  \<open>binade x\<close> is the exponent of the binade of \<open>x\<close> (held at \<open>-1022\<close> below the normal
  range, where the spacing no longer shrinks), \<open>ulp x\<close> the spacing of the doubles
  there, and \<open>rnd x\<close> the nearest multiple of that spacing. \<^verbatim>\<open>NaN\<close> is \<open>None\<close> of
  \<^typ>\<open>real option\<close> where the code tests for it; the infinities (a result of
  magnitude \<open>2^1024\<close> or more, a division by zero) and the sign of zero are not
  represented.
\<close>

definition roundEven :: "real \<Rightarrow> int" where
  "roundEven r =
     (let f = \<lfloor>r\<rfloor>; d = r - of_int f
      in if d < 1 / 2 then f
         else if 1 / 2 < d then f + 1
         else if even f then f else f + 1)"

definition binade :: "real \<Rightarrow> int" where
  "binade x = max \<lfloor>log 2 \<bar>x\<bar>\<rfloor> (- 1022)"

definition ulp :: "real \<Rightarrow> real" where
  "ulp x = 2 powr of_int (binade x - 52)"

definition rnd :: "real \<Rightarrow> real" where
  "rnd x = of_int (roundEven (x / ulp x)) * ulp x"

definition fadd :: "real \<Rightarrow> real \<Rightarrow> real" where
  "fadd x y = rnd (x + y)"

definition fsub :: "real \<Rightarrow> real \<Rightarrow> real" where
  "fsub x y = rnd (x - y)"

definition fmul :: "real \<Rightarrow> real \<Rightarrow> real" where
  "fmul x y = rnd (x * y)"

definition fdiv :: "real \<Rightarrow> real \<Rightarrow> real" where
  "fdiv x y = rnd (x / y)"

section \<open>Data model of the hybrid waterfall visual\<close>

datatype BarType = Step | Subtotal | Total | Bar

record StackedValue =
  measureName :: string
  val :: real
  color :: string

record BarData =
  category :: string
  barType :: BarType
  sequence :: real
  stackedValues :: "StackedValue list"
  totalValue :: real
  startY :: real
  endY :: real
  xPosition :: real

section \<open>Values of the host's data view\<close>

text \<open>
  A cell of a column (\<^verbatim>\<open>powerbi.PrimitiveValue\<close>, or \<^verbatim>\<open>null\<close>/\<^verbatim>\<open>undefined\<close>).
  Dates are left out of the model.
\<close>

datatype PrimitiveValue =
    PUndefined
  | PNull
  | PBoolean bool
  | PNumber real
  | PNaN
  | PString string

text \<open>
  What the parser takes from its environment: the host's colour palette
  (\<^verbatim>\<open>colorPalette.getColor(name).value\<close>, \<open>None\<close> for no value), and the two
  conversions of the language between strings and numbers, which are parameters of the
  model (\<open>None\<close> is \<^verbatim>\<open>NaN\<close>).
\<close>

record Host =
  getColor :: "string \<Rightarrow> string option"
  StringToNumber :: "string \<Rightarrow> real option"
  NumberToString :: "real \<Rightarrow> string"

record DataViewCategoryColumn =
  catValues :: "PrimitiveValue list"

record DataViewValueColumn =
  displayName :: "string option"
  colValues :: "PrimitiveValue list"

record DataViewCategorical =
  categories :: "DataViewCategoryColumn list option"
  valueColumns :: "DataViewValueColumn list option"

record DataView =
  categorical :: "DataViewCategorical option"

text \<open>\<^verbatim>\<open>xs[i]\<close>: reading past the end of an array gives \<^verbatim>\<open>undefined\<close>.\<close>

definition elemAt :: "PrimitiveValue list \<Rightarrow> nat \<Rightarrow> PrimitiveValue" where
  "elemAt xs i = (if i < length xs then xs ! i else PUndefined)"

text \<open>\<^verbatim>\<open>Number(x)\<close>.\<close>

definition toNumber :: "Host \<Rightarrow> PrimitiveValue \<Rightarrow> real option" where
  "toNumber h x =
     (case x of
        PUndefined \<Rightarrow> None
      | PNull \<Rightarrow> Some 0
      | PBoolean b \<Rightarrow> Some (if b then 1 else 0)
      | PNumber r \<Rightarrow> Some r
      | PNaN \<Rightarrow> None
      | PString s \<Rightarrow> StringToNumber h s)"

text \<open>Truthiness of a cell, as \<^verbatim>\<open>x || y\<close> tests it.\<close>

definition truthy :: "PrimitiveValue \<Rightarrow> bool" where
  "truthy x =
     (case x of
        PUndefined \<Rightarrow> False
      | PNull \<Rightarrow> False
      | PBoolean b \<Rightarrow> b
      | PNumber r \<Rightarrow> r \<noteq> 0
      | PNaN \<Rightarrow> False
      | PString s \<Rightarrow> s \<noteq> [])"

text \<open>\<^verbatim>\<open>String(x)\<close>.\<close>

definition toString :: "Host \<Rightarrow> PrimitiveValue \<Rightarrow> string" where
  "toString h x =
     (case x of
        PUndefined \<Rightarrow> ''undefined''
      | PNull \<Rightarrow> ''null''
      | PBoolean b \<Rightarrow> (if b then ''true'' else ''false'')
      | PNumber r \<Rightarrow> NumberToString h r
      | PNaN \<Rightarrow> ''NaN''
      | PString s \<Rightarrow> s)"

text \<open>\<^verbatim>\<open>toLowerCase\<close>, on the letters A to Z; every other character is kept. The
  parser compares the result with three lower-case ASCII words only.\<close>

definition lowerChar :: "char \<Rightarrow> char" where
  "lowerChar c =
     (case map_of (zip ''ABCDEFGHIJKLMNOPQRSTUVWXYZ'' ''abcdefghijklmnopqrstuvwxyz'') c of
        Some d \<Rightarrow> d
      | None \<Rightarrow> c)"

definition toLowerCase :: "string \<Rightarrow> string" where
  "toLowerCase s = map lowerChar s"

text \<open>Decimal digits of a natural number (the \<^verbatim>\<open>${v + 1}\<close> of a template string,
  and the digits that \<^verbatim>\<open>toFixed\<close> prints).\<close>

fun showNat :: "nat \<Rightarrow> string" where
  "showNat n =
     (if n < 10 then [''0123456789'' ! n]
      else showNat (n div 10) @ [''0123456789'' ! (n mod 10)])"

declare showNat.simps [simp del]

section \<open>Row parser: \<^verbatim>\<open>parseData\<close>\<close>

record ColorSettings =
  defaultBarColor :: string

text \<open>\<^verbatim>\<open>Number(valueCol.values[i]) || 0\<close>.\<close>

definition measureValue :: "Host \<Rightarrow> DataViewValueColumn \<Rightarrow> nat \<Rightarrow> real" where
  "measureValue h valueCol i =
     (case toNumber h (elemAt (colValues valueCol) i) of
        None \<Rightarrow> 0
      | Some r \<Rightarrow> (if r = 0 then 0 else r))"

text \<open>\<^verbatim>\<open>valueCol.source.displayName || `Value ${v + 1}`\<close>.\<close>

definition measureNameOf :: "DataViewValueColumn \<Rightarrow> nat \<Rightarrow> string" where
  "measureNameOf valueCol v =
     (case displayName valueCol of
        None \<Rightarrow> ''Value '' @ showNat (v + 1)
      | Some n \<Rightarrow> (if n = [] then ''Value '' @ showNat (v + 1) else n))"

text \<open>\<^verbatim>\<open>colorPalette.getColor(measureName).value || defaultColor\<close>.\<close>

definition colorOf :: "Host \<Rightarrow> string \<Rightarrow> string \<Rightarrow> string" where
  "colorOf h defaultColor name =
     (case getColor h name of
        None \<Rightarrow> defaultColor
      | Some c \<Rightarrow> (if c = [] then defaultColor else c))"

text \<open>The inner loop over the measure columns, for row \<open>i\<close>, from column \<open>v\<close> on;
  the accumulator is \<^verbatim>\<open>stackedValues\<close> and \<^verbatim>\<open>totalValue\<close>.\<close>

function stackLoop ::
  "Host \<Rightarrow> string \<Rightarrow> DataViewValueColumn list \<Rightarrow> nat \<Rightarrow> nat
     \<Rightarrow> StackedValue list \<times> real \<Rightarrow> StackedValue list \<times> real" where
  "stackLoop h defaultColor cols i v acc =
     (if v < length cols then
        (let valueCol = cols ! v;
             x = measureValue h valueCol i
         in if x \<noteq> 0 then
              (let name = measureNameOf valueCol v;
                   c = colorOf h defaultColor name
               in stackLoop h defaultColor cols i (Suc v)
                    (fst acc @ [\<lparr>measureName = name, val = x, color = c\<rparr>], fadd (snd acc) x))
            else stackLoop h defaultColor cols i (Suc v) acc)
      else acc)"
  by pat_completeness auto
termination
  by (relation "measure (\<lambda>(h, defaultColor, cols, i, v, acc). length cols - v)") auto

declare stackLoop.simps [simp del]

text \<open>\<^verbatim>\<open>sequenceColumn ? Number(sequenceColumn.values[i]) || i : i\<close>.\<close>

definition sequenceOf :: "Host \<Rightarrow> DataViewCategoryColumn option \<Rightarrow> nat \<Rightarrow> real" where
  "sequenceOf h sequenceColumn i =
     (case sequenceColumn of
        None \<Rightarrow> real i
      | Some col \<Rightarrow>
          (case toNumber h (elemAt (catValues col) i) of
             None \<Rightarrow> real i
           | Some r \<Rightarrow> (if r = 0 then real i else r)))"

text \<open>\<^verbatim>\<open>String(x || d)\<close> for a string literal \<open>d\<close>.\<close>

definition stringOr :: "Host \<Rightarrow> PrimitiveValue \<Rightarrow> string \<Rightarrow> string" where
  "stringOr h x d = (if truthy x then toString h x else d)"

definition mapBarType :: "string \<Rightarrow> BarType" where
  "mapBarType barTypeRaw =
     (if barTypeRaw = ''subtotal'' then Subtotal
      else if barTypeRaw = ''total'' then Total
      else if barTypeRaw = ''bar'' then Bar
      else Step)"

text \<open>The body of the loop over the rows: the record pushed for row \<open>i\<close>.\<close>

definition parseRow ::
  "Host \<Rightarrow> string \<Rightarrow> DataViewCategoryColumn \<Rightarrow> DataViewCategoryColumn
     \<Rightarrow> DataViewCategoryColumn option \<Rightarrow> DataViewValueColumn list \<Rightarrow> nat \<Rightarrow> BarData" where
  "parseRow h defaultColor categoryColumn barTypeColumn sequenceColumn cols i =
     (let cat = stringOr h (elemAt (catValues categoryColumn) i) [];
          barTypeRaw = toLowerCase (stringOr h (elemAt (catValues barTypeColumn) i) ''step'');
          sq = sequenceOf h sequenceColumn i;
          bt = mapBarType barTypeRaw;
          st = stackLoop h defaultColor cols i 0 ([], 0)
      in \<lparr>category = cat, barType = bt, sequence = sq, stackedValues = fst st,
          totalValue = snd st, startY = 0, endY = 0, xPosition = 0\<rparr>)"

function rowLoop ::
  "Host \<Rightarrow> string \<Rightarrow> DataViewCategoryColumn \<Rightarrow> DataViewCategoryColumn
     \<Rightarrow> DataViewCategoryColumn option \<Rightarrow> DataViewValueColumn list \<Rightarrow> nat
     \<Rightarrow> BarData list \<Rightarrow> BarData list" where
  "rowLoop h defaultColor categoryColumn barTypeColumn sequenceColumn cols i acc =
     (if i < length (catValues categoryColumn) then
        rowLoop h defaultColor categoryColumn barTypeColumn sequenceColumn cols (Suc i)
          (acc @ [parseRow h defaultColor categoryColumn barTypeColumn sequenceColumn cols i])
      else acc)"
  by pat_completeness auto
termination
  by (relation "measure (\<lambda>(h, defaultColor, categoryColumn, barTypeColumn, sequenceColumn,
        cols, i, acc). length (catValues categoryColumn) - i)") auto

declare rowLoop.simps [simp del]

text \<open>
  \<^verbatim>\<open>bars.sort((a, b) => a.sequence - b.sequence)\<close>: the array sort of the language is
  stable, and the comparator orders by \<open>sequence\<close>; \<^const>\<open>sort_key\<close> is the stable
  insertion sort of the library.
\<close>

definition sortBySequence :: "BarData list \<Rightarrow> BarData list" where
  "sortBySequence bs = sort_key sequence bs"

definition parseData :: "Host \<Rightarrow> ColorSettings \<Rightarrow> DataView \<Rightarrow> BarData list" where
  "parseData h colors dataView =
     (case categorical dataView of
        None \<Rightarrow> []
      | Some c \<Rightarrow>
          (case categories c of
             None \<Rightarrow> []
           | Some cats \<Rightarrow>
               if length cats < 2 then []
               else
                 (let categoryColumn = cats ! 0;
                      barTypeColumn = cats ! 1;
                      sequenceColumn = (if length cats > 2 then Some (cats ! 2) else None);
                      vcols = (case valueColumns c of None \<Rightarrow> [] | Some vs \<Rightarrow> vs)
                  in sortBySequence
                       (rowLoop h (defaultBarColor colors) categoryColumn barTypeColumn
                          sequenceColumn vcols 0 []))))"

section \<open>Layout engine: the vertical pass of \<^verbatim>\<open>computeBarPositions\<close>\<close>

text \<open>
  The two local variables of the waterfall loop, \<^verbatim>\<open>runningTotal\<close> and
  \<^verbatim>\<open>lastWaterfallEnd\<close>, are the state of the fold.
\<close>

record YState =
  runningTotal :: real
  lastWaterfallEnd :: real

definition yInit :: YState where
  "yInit = \<lparr>runningTotal = 0, lastWaterfallEnd = 0\<rparr>"

text \<open>One iteration of \<^verbatim>\<open>for (const bar of this.bars)\<close>: the bar with its span
  assigned, and the state after it.\<close>

definition yStep :: "YState \<Rightarrow> BarData \<Rightarrow> BarData \<times> YState" where
  "yStep st bar =
     (case barType bar of
        Step \<Rightarrow>
          (let bar1 = bar\<lparr>startY := runningTotal st\<rparr>;
               bar2 = bar1\<lparr>endY := fadd (runningTotal st) (totalValue bar1)\<rparr>
           in (bar2, st\<lparr>runningTotal := endY bar2, lastWaterfallEnd := endY bar2\<rparr>))
      | Subtotal \<Rightarrow> (bar\<lparr>startY := 0, endY := runningTotal st\<rparr>, st)
      | Total \<Rightarrow> (bar\<lparr>startY := 0, endY := runningTotal st\<rparr>, st)
      | Bar \<Rightarrow> (bar\<lparr>startY := 0, endY := totalValue bar\<rparr>, st))"

fun yLoop :: "YState \<Rightarrow> BarData list \<Rightarrow> BarData list \<times> YState" where
  "yLoop st [] = ([], st)"
| "yLoop st (bar # rest) =
     (let (bar', st') = yStep st bar;
          (rest', st'') = yLoop st' rest
      in (bar' # rest', st''))"

section \<open>Layout engine: \<^verbatim>\<open>computeBarPositions\<close>\<close>

text \<open>The two numeric chart settings the layout reads
  (\<^verbatim>\<open>chartSettings.barWidth.value\<close>, \<^verbatim>\<open>chartSettings.barGap.value\<close>).\<close>

record ChartSettings =
  barWidth :: real
  barGap :: real

text \<open>
  The mutable fields of the \<^verbatim>\<open>Visual\<close> object that the pipeline reads and writes.
  \<^verbatim>\<open>_computedBarWidth\<close> and \<^verbatim>\<open>_computedBarGap\<close> are attached to the object by
  the layout; \<open>None\<close> is the property before its first assignment.
\<close>

record Visual =
  bars :: "BarData list"
  computedBarWidth :: "real option"
  computedBarGap :: "real option"

text \<open>The horizontal loop:
  \<^verbatim>\<open>bar.xPosition = currentX; currentX += dynamicBarWidth + dynamicBarGap\<close>.\<close>

fun xLoop :: "real \<Rightarrow> real \<Rightarrow> real \<Rightarrow> BarData list \<Rightarrow> BarData list" where
  "xLoop dynamicBarWidth dynamicBarGap currentX [] = []"
| "xLoop dynamicBarWidth dynamicBarGap currentX (bar # rest) =
     bar\<lparr>xPosition := currentX\<rparr>
       # xLoop dynamicBarWidth dynamicBarGap
           (fadd currentX (fadd dynamicBarWidth dynamicBarGap)) rest"

definition marginLeft :: real where "marginLeft = 50"
definition marginRight :: real where "marginRight = 20"

definition availableWidth :: "real \<Rightarrow> real" where
  "availableWidth viewportWidth = fsub (fsub viewportWidth marginLeft) marginRight"

definition gapRatio :: "ChartSettings \<Rightarrow> real" where
  "gapRatio cs = fdiv (barGap cs) (barWidth cs)"

definition totalUnits :: "ChartSettings \<Rightarrow> nat \<Rightarrow> real" where
  "totalUnits cs numBars = fadd (real numBars) (fmul (fsub (real numBars) 1) (gapRatio cs))"

definition dynamicBarWidth :: "ChartSettings \<Rightarrow> real \<Rightarrow> nat \<Rightarrow> real" where
  "dynamicBarWidth cs viewportWidth numBars =
     min (fdiv (availableWidth viewportWidth) (totalUnits cs numBars)) (fmul (barWidth cs) 2)"

definition dynamicBarGap :: "ChartSettings \<Rightarrow> real \<Rightarrow> nat \<Rightarrow> real" where
  "dynamicBarGap cs viewportWidth numBars =
     fmul (dynamicBarWidth cs viewportWidth numBars) (gapRatio cs)"

definition computeBarPositions :: "ChartSettings \<Rightarrow> real \<Rightarrow> real \<Rightarrow> Visual \<Rightarrow> Visual" where
  "computeBarPositions cs viewportWidth viewportHeight this =
     (let numBars = length (bars this);
          w = dynamicBarWidth cs viewportWidth numBars;
          g = dynamicBarGap cs viewportWidth numBars;
          bars1 = xLoop w g marginLeft (bars this);
          bars2 = fst (yLoop yInit bars1)
      in this\<lparr>bars := bars2, computedBarWidth := Some w, computedBarGap := Some g\<rparr>)"

text \<open>The state of the vertical loop after its first \<open>k\<close> iterations.\<close>

definition yStateAfter :: "nat \<Rightarrow> BarData list \<Rightarrow> YState" where
  "yStateAfter k bs = snd (yLoop yInit (take k bs))"

section \<open>Draw stage: the separator of \<^verbatim>\<open>renderChart\<close>\<close>

text \<open>
  The search loop for the separator position, from index \<open>i\<close> on, with its
  \<^verbatim>\<open>break\<close> at the first hit; \<open>-1\<close> is the initial value of \<^verbatim>\<open>separatorX\<close>.
  \<open>isBoundary\<close> is the test of the loop:
  \<^verbatim>\<open>bars[i].barType === "bar" && i > 0 && bars[i - 1].barType !== "bar"\<close>.
\<close>

definition isBoundary :: "BarData list \<Rightarrow> nat \<Rightarrow> bool" where
  "isBoundary bs i = (barType (bs ! i) = Bar \<and> i > 0 \<and> barType (bs ! (i - 1)) \<noteq> Bar)"

function findSeparator :: "BarData list \<Rightarrow> real \<Rightarrow> nat \<Rightarrow> real" where
  "findSeparator bs gap i =
     (if i < length bs then
        (if isBoundary bs i
         then fsub (xPosition (bs ! i)) (fdiv gap 2)
         else findSeparator bs gap (Suc i))
      else - 1)"
  by pat_completeness auto
termination
  by (relation "measure (\<lambda>(bs, gap, i). length bs - i)") auto

declare findSeparator.simps [simp del]

text \<open>\<^verbatim>\<open>(this as any)._computedBarGap || chartSettings.barGap.value\<close>, and the same for
  the width: the configured value stands in when the computed one is absent or zero.\<close>

definition orSetting :: "real option \<Rightarrow> real \<Rightarrow> real" where
  "orSetting computed setting =
     (case computed of
        None \<Rightarrow> setting
      | Some x \<Rightarrow> (if x = 0 then setting else x))"

text \<open>
  What \<^verbatim>\<open>renderChart\<close> draws, as far as this development follows it: the size given
  to the SVG element, the bar width and gap it draws with, and the x-coordinate of the
  separator line when one is appended (\<open>None\<close> when none is). The pattern definitions,
  the baseline, the connectors, the rectangles and the labels are not modelled.
\<close>

record ChartOutput =
  svgWidth :: real
  svgHeight :: real
  usedBarWidth :: real
  usedBarGap :: real
  separator :: "real option"

definition renderChart :: "ChartSettings \<Rightarrow> real \<Rightarrow> real \<Rightarrow> Visual \<Rightarrow> ChartOutput" where
  "renderChart cs w h this =
     (let bw = orSetting (computedBarWidth this) (barWidth cs);
          bg = orSetting (computedBarGap this) (barGap cs);
          separatorX = findSeparator (bars this) bg 0
      in \<lparr>svgWidth = w, svgHeight = h, usedBarWidth = bw, usedBarGap = bg,
          separator = (if separatorX > 0 then Some separatorX else None)\<rparr>)"

section \<open>Value formatting: \<^verbatim>\<open>formatValue\<close>\<close>

text \<open>
  \<^verbatim>\<open>x.toFixed(d)\<close>: the integer \<open>n\<close> nearest to \<open>|x| * 10^d\<close> (the larger one on a
  tie), printed with \<open>d\<close> digits after the point, and a minus sign when \<open>x < 0\<close>.
  From \<open>|x| = 10^21\<close> on the language prints \<open>|x|\<close> as \<^verbatim>\<open>String\<close> does, which is the
  host's conversion here.
\<close>

definition fracDigits :: "nat \<Rightarrow> nat \<Rightarrow> string" where
  "fracDigits d n = replicate (d - length (showNat n)) (CHR ''0'') @ showNat n"

definition toFixed :: "Host \<Rightarrow> real \<Rightarrow> nat \<Rightarrow> string" where
  "toFixed h x d =
     (let n = nat \<lfloor>\<bar>x\<bar> * 10 ^ d + 1 / 2\<rfloor>;
          m = (if \<bar>x\<bar> \<ge> 10 ^ 21 then NumberToString h \<bar>x\<bar>
               else showNat (n div 10 ^ d)
                      @ (if d = 0 then [] else CHR ''.'' # fracDigits d (n mod 10 ^ d)))
      in if x < 0 then CHR ''-'' # m else m)"

text \<open>
  \<^verbatim>\<open>s.replace(/\.?0+$/, "")\<close>: the leftmost suffix made of an optional point and one
  or more zeros is removed. \<open>zerosToEnd\<close> is \<^verbatim>\<open>0+$\<close>, \<open>matchesHere\<close> is the whole
  pattern at the start of a suffix.
\<close>

definition zerosToEnd :: "string \<Rightarrow> bool" where
  "zerosToEnd s = (s \<noteq> [] \<and> list_all (\<lambda>c. c = CHR ''0'') s)"

definition matchesHere :: "string \<Rightarrow> bool" where
  "matchesHere s =
     (case s of
        [] \<Rightarrow> False
      | c # r \<Rightarrow> (if c = CHR ''.'' then zerosToEnd r else zerosToEnd s))"

fun stripZeros :: "string \<Rightarrow> string" where
  "stripZeros [] = []"
| "stripZeros (c # cs) = (if matchesHere (c # cs) then [] else c # stripZeros cs)"

text \<open>\<^verbatim>\<open>formatted % 1 === 0 ? formatted.toFixed(0) : formatted.toFixed(2)\<close>.\<close>

definition fixed0or2 :: "Host \<Rightarrow> real \<Rightarrow> string" where
  "fixed0or2 h formatted =
     (if frac formatted = 0 then toFixed h formatted 0 else toFixed h formatted 2)"

text \<open>The argument is \<open>None\<close> for \<^verbatim>\<open>null\<close> or \<^verbatim>\<open>undefined\<close>.\<close>

definition formatValue :: "Host \<Rightarrow> real option \<Rightarrow> string" where
  "formatValue h v =
     (case v of
        None \<Rightarrow> []
      | Some x \<Rightarrow>
          if x = 0 then ''0''
          else
            (let a = \<bar>x\<bar>;
                 sign = (if x < 0 then ''-'' else [])
             in if a \<ge> 1000000000 then sign @ toFixed h (fdiv a 1000000000) 1 @ ''B''
                else if a \<ge> 1000000 then sign @ fixed0or2 h (fdiv a 1000000) @ ''M''
                else if a \<ge> 1000 then sign @ fixed0or2 h (fdiv a 1000) @ ''K''
                else stripZeros (toFixed h x 2)))"

section \<open>The update cycle: \<^verbatim>\<open>update\<close>\<close>

record IViewport =
  width :: real
  height :: real

record VisualUpdateOptions =
  dataViews :: "DataView list option"
  viewport :: IViewport

text \<open>The formatting settings, which the host's service populates before the parse;
  they are an argument of the model.\<close>

record VisualFormattingSettingsModel =
  chartSettings :: ChartSettings
  colorSettings :: ColorSettings

text \<open>What an update leaves on the drawing surface: the placeholder text of
  \<^verbatim>\<open>renderEmptyState\<close>, for a surface of the given size, or the chart.\<close>

datatype Rendered = EmptyState real real | Chart ChartOutput

definition renderEmptyState :: "real \<Rightarrow> real \<Rightarrow> Rendered" where
  "renderEmptyState w h = EmptyState w h"

text \<open>\<^verbatim>\<open>options.dataViews?.[0]\<close>.\<close>

definition firstDataView :: "VisualUpdateOptions \<Rightarrow> DataView option" where
  "firstDataView options =
     (case dataViews options of
        None \<Rightarrow> None
      | Some [] \<Rightarrow> None
      | Some (dv # rest) \<Rightarrow> Some dv)"

definition update ::
  "Host \<Rightarrow> VisualFormattingSettingsModel \<Rightarrow> VisualUpdateOptions \<Rightarrow> Visual
     \<Rightarrow> Visual \<times> Rendered" where
  "update h fs options this =
     (let w = width (viewport options); ht = height (viewport options)
      in case firstDataView options of
           None \<Rightarrow> (this, renderEmptyState w ht)
         | Some dataView \<Rightarrow>
             (case categorical dataView of
                None \<Rightarrow> (this, renderEmptyState w ht)
              | Some c \<Rightarrow>
                  (let this1 = this\<lparr>bars := parseData h (colorSettings fs) dataView\<rparr>
                   in if length (bars this1) = 0 then (this1, renderEmptyState w ht)
                      else
                        (let this2 = computeBarPositions (chartSettings fs) w ht this1
                         in (this2, Chart (renderChart (chartSettings fs) w ht this2))))))"

section \<open>Example inputs\<close>

text \<open>The default chart settings of the formatting pane (bar width 40, gap 10).\<close>

definition defaultChart :: ChartSettings where
  "defaultChart = \<lparr>barWidth = 40, barGap = 10\<rparr>"

text \<open>A parsed bar with one measure, not yet positioned.\<close>

definition parsedBar :: "string \<Rightarrow> BarType \<Rightarrow> real \<Rightarrow> real \<Rightarrow> BarData" where
  "parsedBar c t s v =
     \<lparr>category = c, barType = t, sequence = s,
      stackedValues = (if v = 0 then [] else [\<lparr>measureName = ''Amount'', val = v, color = ''#4472C4''\<rparr>]),
      totalValue = v, startY = 0, endY = 0, xPosition = 0\<rparr>"

definition visualWith :: "BarData list \<Rightarrow> Visual" where
  "visualWith bs = \<lparr>bars = bs, computedBarWidth = None, computedBarGap = None\<rparr>"

text \<open>Three step bars, the last one negative.\<close>

definition stepsOnly :: Visual where
  "stepsOnly = visualWith
     [parsedBar ''Open'' Step 0 100, parsedBar ''Gain'' Step 1 50, parsedBar ''Loss'' Step 2 (- 30)]"

text \<open>The end-to-end example of the specification.\<close>

definition waterfall :: Visual where
  "waterfall = visualWith
     [parsedBar ''Start'' Step 0 100, parsedBar ''Add'' Step 1 50,
      parsedBar ''Subtotal'' Subtotal 2 0, parsedBar ''Bar'' Bar 3 30]"

text \<open>
  A host whose palette gives every measure the same colour. The cells of the example
  tables are numbers and non-empty strings, so the two conversions are not exercised.
\<close>

definition plainHost :: Host where
  "plainHost = \<lparr>getColor = (\<lambda>name. Some ''#4472C4''),
                 StringToNumber = (\<lambda>s. None),
                 NumberToString = (\<lambda>r. [])\<rparr>"

definition plainColors :: ColorSettings where
  "plainColors = \<lparr>defaultBarColor = ''#4472C4''\<rparr>"

definition tableOf ::
  "PrimitiveValue list list \<Rightarrow> (string \<times> PrimitiveValue list) list \<Rightarrow> DataView" where
  "tableOf cats ms =
     \<lparr>categorical = Some
        \<lparr>categories = Some (map (\<lambda>vs. \<lparr>catValues = vs\<rparr>) cats),
         valueColumns = Some (map (\<lambda>(n, vs). \<lparr>displayName = Some n, colValues = vs\<rparr>) ms)\<rparr>\<rparr>"

text \<open>Four rows with sequence cells 2, 1, 1 and none: rows B and C tie.\<close>

definition tiedRows :: DataView where
  "tiedRows = tableOf
     [[PString ''A'', PString ''B'', PString ''C'', PString ''D''],
      [PString ''step'', PString ''Step'', PString ''subtotal'', PString ''bar''],
      [PNumber 2, PNumber 1, PNumber 1, PUndefined]]
     [(''Amount'', [PNumber 10, PNumber 0, PNumber 5, PNumber 7]),
      (''Tax'', [PNumber (- 2), PNumber 4, PNull, PNumber 0])]"

text \<open>The two measure columns of the table above.\<close>

definition amountTax :: "DataViewValueColumn list" where
  "amountTax =
     [\<lparr>displayName = Some ''Amount'', colValues = [PNumber 10, PNumber 0, PNumber 5, PNumber 7]\<rparr>,
      \<lparr>displayName = Some ''Tax'', colValues = [PNumber (- 2), PNumber 4, PNull, PNumber 0]\<rparr>]"

text \<open>Two rows; the second one carries the sequence value 0.\<close>

definition zeroTagged :: DataView where
  "zeroTagged = tableOf
     [[PString ''A'', PString ''B''],
      [PString ''step'', PString ''step''],
      [PNumber (1 / 2), PNumber 0]]
     [(''Amount'', [PNumber 10, PNumber 20])]"

text \<open>Three step bars whose running sum leaves the doubles: \<open>2^53\<close>, 1 and 1.\<close>

definition bigSteps :: Visual where
  "bigSteps = visualWith
     [parsedBar ''Base'' Step 0 9007199254740992, parsedBar ''One'' Step 1 1,
      parsedBar ''More'' Step 2 1]"

text \<open>One row with three measures \<open>2^53\<close>, 1 and 1.\<close>

definition bigMeasures :: DataView where
  "bigMeasures = tableOf
     [[PString ''Sum''], [PString ''step'']]
     [(''Base'', [PNumber 9007199254740992]), (''One'', [PNumber 1]), (''More'', [PNumber 1])]"

text \<open>Three step bars followed by one independent bar.\<close>

definition stepsThenBar :: Visual where
  "stepsThenBar = visualWith
     [parsedBar ''Q1'' Step 0 10, parsedBar ''Q2'' Step 1 10,
      parsedBar ''Q3'' Step 2 10, parsedBar ''Plan'' Bar 3 10]"

text \<open>A table with a single categorical column, and update options around a table.\<close>

definition oneColumn :: DataView where
  "oneColumn = tableOf [[PString ''A'', PString ''B'']] [(''Amount'', [PNumber 10, PNumber 20])]"

definition optionsFor :: "DataView \<Rightarrow> real \<Rightarrow> real \<Rightarrow> VisualUpdateOptions" where
  "optionsFor dv w h = \<lparr>dataViews = Some [dv], viewport = \<lparr>width = w, height = h\<rparr>\<rparr>"

definition defaultSettings :: VisualFormattingSettingsModel where
  "defaultSettings = \<lparr>chartSettings = defaultChart, colorSettings = plainColors\<rparr>"

section \<open>Properties of the rounding\<close>

lemma ulp_pos: "0 < ulp x"
  by (simp add: ulp_def)

lemma roundEven_of_int: "roundEven (of_int j) = j"
  by (simp add: roundEven_def)

lemma rnd_0: "rnd 0 = 0"
  by (simp add: rnd_def roundEven_def)

text \<open>A number that is a whole multiple of the spacing at its binade is a double.\<close>

lemma rnd_multiple:
  assumes "x / ulp x = of_int j"
  shows "rnd x = x"
proof -
  have "rnd x = of_int j * ulp x"
    by (simp add: rnd_def assms roundEven_of_int)
  also have "\<dots> = x"
    using assms ulp_pos[of x] by (simp add: field_simps)
  finally show ?thesis .
qed

lemma floor_log2_less:
  assumes "x \<noteq> 0" and "\<bar>x\<bar> < 2 powr of_int n"
  shows "\<lfloor>log 2 \<bar>x\<bar>\<rfloor> < n"
proof -
  from assms(1) have pos: "0 < \<bar>x\<bar>" by simp
  from assms(2) pos have "log 2 \<bar>x\<bar> < of_int n"
    by (simp add: log_less_iff)
  then show ?thesis
    by (simp add: floor_less_iff)
qed

text \<open>Whole numbers below \<open>2^53\<close> in magnitude, scaled by a power of two that is not
  below the smallest spacing, are doubles.\<close>

lemma rnd_dyadic:
  assumes m: "\<bar>m\<bar> < 2 ^ 53" and k: "- 1074 \<le> k"
  shows "rnd (of_int m * 2 powr of_int k) = of_int m * 2 powr of_int k"
proof (cases "m = 0")
  case True
  then show ?thesis by (simp add: rnd_0)
next
  case False
  let ?x = "of_int m * 2 powr of_int k :: real"
  have nz: "?x \<noteq> 0" using False by simp
  have "\<bar>?x\<bar> = of_int \<bar>m\<bar> * 2 powr of_int k"
    by (simp add: abs_mult)
  also have "\<dots> < 2 ^ 53 * 2 powr of_int k"
  proof -
    from m have "(of_int \<bar>m\<bar> :: real) < of_int (2 ^ 53)"
      by (simp only: of_int_less_iff)
    then have "(of_int \<bar>m\<bar> :: real) < 2 ^ 53" by simp
    then show ?thesis by (simp add: mult_strict_right_mono)
  qed
  also have "\<dots> = 2 powr of_int (53 + k)"
    by (simp add: powr_add)
  finally have "\<bar>?x\<bar> < 2 powr of_int (53 + k)" .
  with nz have "\<lfloor>log 2 \<bar>?x\<bar>\<rfloor> < 53 + k"
    by (rule floor_log2_less)
  with k have b: "binade ?x - 52 \<le> k"
    by (simp add: binade_def)
  define d where "d = nat (k - (binade ?x - 52))"
  from b have d: "k = (binade ?x - 52) + int d"
    by (simp add: d_def)
  define u where "u = (2::real) powr of_int (binade ?x - 52)"
  have upos: "0 < u" by (simp add: u_def)
  have "(2::real) powr of_int k = u * 2 powr of_int (int d)"
    unfolding u_def by (subst d) (simp add: powr_add)
  also have "2 powr of_int (int d) = (2::real) ^ d"
    by (simp add: powr_realpow)
  finally have eq: "2 powr of_int k = u * 2 ^ d" .
  have ulp_eq: "ulp ?x = u"
    by (simp add: ulp_def u_def)
  have x_eq: "?x = of_int m * (u * 2 ^ d)"
    by (simp only: eq)
  have "?x / ulp ?x = ?x / u"
    by (simp only: ulp_eq)
  also have "\<dots> = of_int m * (u * 2 ^ d) / u"
    by (subst x_eq) (rule refl)
  also have "\<dots> = of_int m * 2 ^ d"
    using upos by simp
  finally have "?x / ulp ?x = of_int m * 2 ^ d" .
  then have "?x / ulp ?x = of_int (m * 2 ^ d)"
    by simp
  then show ?thesis
    by (rule rnd_multiple)
qed

lemma rnd_of_int:
  assumes "\<bar>m\<bar> < 2 ^ 53"
  shows "rnd (of_int m) = of_int m"
  using rnd_dyadic[OF assms, of 0] by simp

lemma rnd_numeral:
  assumes "(numeral n :: int) < 2 ^ 53"
  shows "rnd (numeral n) = numeral n"
  using rnd_of_int[of "numeral n"] assms by simp

lemma rnd_neg_numeral:
  assumes "(numeral n :: int) < 2 ^ 53"
  shows "rnd (- numeral n) = - numeral n"
  using rnd_of_int[of "- numeral n"] assms by simp

lemma rnd_1: "rnd 1 = 1"
  using rnd_of_int[of 1] by simp

lemma rnd_fraction:
  assumes "\<bar>m\<bar> < 2 ^ 53" and "j \<le> 1074"
  shows "rnd (of_int m / 2 ^ j) = of_int m / 2 ^ j"
proof -
  have "(2::real) powr of_int (- int j) = 1 / 2 ^ j"
    by (simp add: powr_minus powr_realpow field_simps)
  with rnd_dyadic[OF assms(1), of "- int j"] assms(2) show ?thesis
    by simp
qed

text \<open>Rounding a number whose binade is known.\<close>

lemma rnd_in_binade:
  assumes "2 powr of_int e \<le> \<bar>x\<bar>" and "\<bar>x\<bar> < 2 powr of_int (e + 1)" and "- 1022 \<le> e"
  shows "rnd x = of_int (roundEven (x / 2 powr of_int (e - 52))) * 2 powr of_int (e - 52)"
proof -
  have "0 < (2::real) powr of_int e" by simp
  with assms(1) have pos: "0 < \<bar>x\<bar>" by linarith
  from assms(1,2) have "\<lfloor>log 2 \<bar>x\<bar>\<rfloor> = e"
    using floor_log_eq_powr_iff[OF pos, of 2 e] by simp
  with assms(3) have "binade x = e"
    by (simp add: binade_def)
  then show ?thesis
    by (simp add: rnd_def ulp_def)
qed

lemmas rnd_exact = rnd_0 rnd_1 rnd_numeral rnd_neg_numeral
lemmas farith = fadd_def fsub_def fmul_def fdiv_def


lemma rnd_half: "rnd (1 / 2) = 1 / 2"
  using rnd_fraction[of 1 1] by simp

lemma rnd_quarter: "rnd (1 / 4) = 1 / 4"
  using rnd_fraction[of 1 2] by simp

lemma rnd_three_quarters: "rnd (3 / 4) = 3 / 4"
  using rnd_fraction[of 3 2] by simp

lemma rnd_3_2: "rnd (3 / 2) = 3 / 2"
  using rnd_fraction[of 3 1] by simp

lemma rnd_7_2: "rnd (7 / 2) = 7 / 2"
  using rnd_fraction[of 7 1] by simp

lemma rnd_19_4: "rnd (19 / 4) = 19 / 4"
  using rnd_fraction[of 19 2] by simp

lemma rnd_2_53: "rnd 9007199254740992 = 9007199254740992"
  using rnd_dyadic[of 1 53] by simp

lemma rnd_2_53_plus_1: "rnd 9007199254740993 = 9007199254740992"
proof -
  have "rnd 9007199254740993
      = of_int (roundEven (9007199254740993 / 2 powr of_int (53 - 52))) * 2 powr of_int (53 - 52)"
    by (rule rnd_in_binade) simp_all
  also have "roundEven (9007199254740993 / 2 powr of_int (53 - 52)) = 4503599627370496"
    by (simp add: roundEven_def Let_def)
  finally show ?thesis
    by simp
qed


lemmas rnd_small = rnd_half rnd_quarter rnd_three_quarters rnd_3_2 rnd_7_2 rnd_19_4

section \<open>Properties of the layout engine\<close>

subsection \<open>The loops, unfolded\<close>

lemma yLoop_Cons:
  "yLoop st (b # bs) =
     (fst (yStep st b) # fst (yLoop (snd (yStep st b)) bs), snd (yLoop (snd (yStep st b)) bs))"
  by (simp split: prod.splits)

declare yLoop.simps(2) [simp del]


lemma yLoop_append:
  "yLoop st (xs @ ys) =
     (fst (yLoop st xs) @ fst (yLoop (snd (yLoop st xs)) ys), snd (yLoop (snd (yLoop st xs)) ys))"
  by (induction xs arbitrary: st) (simp_all add: yLoop_Cons)

lemma yLoop_nth:
  "i < length bs \<Longrightarrow>
   fst (yLoop st bs) ! i = fst (yStep (snd (yLoop st (take i bs))) (bs ! i))"
proof (induction bs arbitrary: st i)
  case Nil
  then show ?case by simp
next
  case (Cons b bs)
  show ?case
  proof (cases i)
    case 0
    then show ?thesis by (simp add: yLoop_Cons)
  next
    case (Suc j)
    with Cons.prems have "j < length bs" by simp
    from Cons.IH[OF this] Suc show ?thesis
      by (simp add: yLoop_Cons)
  qed
qed

lemma yLoop_take_Suc:
  "i < length bs \<Longrightarrow>
   snd (yLoop st (take (Suc i) bs)) = snd (yStep (snd (yLoop st (take i bs))) (bs ! i))"
  by (simp add: take_Suc_conv_app_nth yLoop_append yLoop_Cons)

lemma yStateAfter_Suc:
  "i < length bs \<Longrightarrow> yStateAfter (Suc i) bs = snd (yStep (yStateAfter i bs) (bs ! i))"
  by (simp add: yStateAfter_def yLoop_take_Suc)

lemma xLoop_length: "length (xLoop w g x bs) = length bs"
  by (induction bs arbitrary: x) auto

text \<open>Bar \<open>i\<close> gets the start position advanced \<open>i\<close> times by the rounded step.\<close>

lemma xLoop_nth:
  "i < length bs \<Longrightarrow>
   xLoop w g x bs ! i = (bs ! i)\<lparr>xPosition := ((\<lambda>c. fadd c (fadd w g)) ^^ i) x\<rparr>"
proof (induction bs arbitrary: x i)
  case Nil
  then show ?case by simp
next
  case (Cons b bs)
  show ?case
  proof (cases i)
    case 0
    then show ?thesis by simp
  next
    case (Suc j)
    with Cons.prems have "j < length bs" by simp
    from Cons.IH[OF this, of "fadd x (fadd w g)"] Suc
      funpow_swap1[of "\<lambda>c. fadd c (fadd w g)" j x]
    show ?thesis
      by simp
  qed
qed

lemma xLoop_take: "take i (xLoop w g x bs) = xLoop w g x (take i bs)"
  by (induction bs arbitrary: x i) (auto simp: take_Cons split: nat.splits)

text \<open>The vertical state does not depend on the x-positions assigned before it.\<close>

lemma yLoop_state_xLoop: "snd (yLoop st (xLoop w g x bs)) = snd (yLoop st bs)"
  by (induction bs arbitrary: st x)
     (simp_all add: yLoop_Cons yStep_def Let_def split: BarType.splits)

lemma yStateAfter_xLoop: "yStateAfter k (xLoop w g x bs) = yStateAfter k bs"
  by (simp add: yStateAfter_def xLoop_take yLoop_state_xLoop)

text \<open>Bar \<open>i\<close> after the layout: its x-position from the horizontal loop, then one step
  of the vertical loop from the state the bars before it left.\<close>

lemma computeBarPositions_nth:
  "i < length (bars this) \<Longrightarrow>
   bars (computeBarPositions cs vw vh this) ! i =
     fst (yStep (yStateAfter i (bars this))
           ((bars this ! i)\<lparr>xPosition :=
               ((\<lambda>c. fadd c (fadd (dynamicBarWidth cs vw (length (bars this)))
                                 (dynamicBarGap cs vw (length (bars this))))) ^^ i)
                 marginLeft\<rparr>))"
  by (simp add: computeBarPositions_def Let_def yLoop_nth xLoop_length xLoop_nth
      flip: yStateAfter_def) (simp add: yStateAfter_xLoop)


lemma yStep_Step:
  "barType b = Step \<Longrightarrow>
   yStep st b = (b\<lparr>startY := runningTotal st, endY := fadd (runningTotal st) (totalValue b)\<rparr>,
                 st\<lparr>runningTotal := fadd (runningTotal st) (totalValue b),
                    lastWaterfallEnd := fadd (runningTotal st) (totalValue b)\<rparr>)"
  by (simp add: yStep_def Let_def)


lemma yLoop_steps:
  "list_all (\<lambda>b. barType b = Step) bs \<Longrightarrow>
   runningTotal (snd (yLoop st bs)) = foldl fadd (runningTotal st) (map totalValue bs)"
  by (induction bs arbitrary: st) (simp_all add: yLoop_Cons yStep_Step)

lemma runningTotal_steps:
  assumes "list_all (\<lambda>b. barType b = Step) bs"
  shows "runningTotal (yStateAfter k bs) = foldl fadd 0 (map totalValue (take k bs))"
proof -
  from assms have "list_all (\<lambda>b. barType b = Step) (take k bs)"
    by (auto simp: list_all_iff dest: in_set_takeD)
  from yLoop_steps[OF this, of yInit] show ?thesis
    by (simp add: yStateAfter_def yInit_def)
qed

lemma step_bar_span:
  assumes "list_all (\<lambda>b. barType b = Step) (bars this)"
    and "i < length (bars this)"
  shows "startY (bars (computeBarPositions cs vw vh this) ! i)
           = foldl fadd 0 (map totalValue (take i (bars this)))"
    and "endY (bars (computeBarPositions cs vw vh this) ! i)
           = foldl fadd 0 (map totalValue (take (Suc i) (bars this)))"
proof -
  let ?b = "bars this ! i"
  from assms have st: "barType ?b = Step"
    by (simp add: list_all_length)
  have rt: "runningTotal (yStateAfter k (bars this))
      = foldl fadd 0 (map totalValue (take k (bars this)))" for k
    using assms(1) by (rule runningTotal_steps)
  have suc: "foldl fadd 0 (map totalValue (take (Suc i) (bars this)))
      = fadd (foldl fadd 0 (map totalValue (take i (bars this)))) (totalValue ?b)"
    using assms(2) by (simp add: take_Suc_conv_app_nth)
  show "startY (bars (computeBarPositions cs vw vh this) ! i)
           = foldl fadd 0 (map totalValue (take i (bars this)))"
    using assms(2) st by (simp add: computeBarPositions_nth yStep_Step rt)
  show "endY (bars (computeBarPositions cs vw vh this) ! i)
           = foldl fadd 0 (map totalValue (take (Suc i) (bars this)))"
    using assms(2) st by (simp add: computeBarPositions_nth yStep_Step rt suc)
qed

subsection \<open>Running totals\<close>

text \<open>
  Claim C1, as the code has it. When every bar is a \<open>step\<close> bar, the vertical pass gives
  bar \<open>i\<close> (from 0) as \<open>startY\<close> the running sum of the values of the bars before it
  and as \<open>endY\<close> the running sum through its own value, where the running sum starts
  at 0 and takes the values in order, each addition rounded to a double as the language
  does; \<open>runningTotal\<close> is that \<open>startY\<close> when the loop reaches the bar and that \<open>endY\<close>
  when it leaves it.
\<close>

theorem step_bars_prefix_sums:
  assumes "list_all (\<lambda>b. barType b = Step) (bars this)"
    and "i < length (bars this)"
  shows "startY (bars (computeBarPositions cs vw vh this) ! i)
           = foldl fadd 0 (map totalValue (take i (bars this)))
       \<and> endY (bars (computeBarPositions cs vw vh this) ! i)
           = foldl fadd 0 (map totalValue (take (Suc i) (bars this)))
       \<and> runningTotal (yStateAfter i (bars this))
           = startY (bars (computeBarPositions cs vw vh this) ! i)
       \<and> runningTotal (yStateAfter (Suc i) (bars this))
           = endY (bars (computeBarPositions cs vw vh this) ! i)"
  using step_bar_span[OF assms, of cs vw vh] runningTotal_steps[OF assms(1)]
  by simp

theorem step_bars_prefix_sums_witness:
  "list_all (\<lambda>b. barType b = Step) (bars stepsOnly) \<and> 2 < length (bars stepsOnly)
   \<and> startY (bars (computeBarPositions defaultChart 800 600 stepsOnly) ! 2) = 150
   \<and> endY (bars (computeBarPositions defaultChart 800 600 stepsOnly) ! 2) = 120
   \<and> runningTotal (yStateAfter 3 (bars stepsOnly)) = 120"
proof -
  have steps: "list_all (\<lambda>b. barType b = Step) (bars stepsOnly)"
    by (simp add: stepsOnly_def visualWith_def parsedBar_def)
  have len: "2 < length (bars stepsOnly)"
    by (simp add: stepsOnly_def visualWith_def)
  have vals: "map totalValue (bars stepsOnly) = [100, 50, - 30]"
    by (simp add: stepsOnly_def visualWith_def parsedBar_def)
  have three: "Suc 2 = 3" by simp
  show ?thesis
    using step_bars_prefix_sums[OF steps len, of defaultChart 800 600] steps len
    by (simp add: vals three take_Suc_conv_app_nth farith rnd_exact flip: take_map)
qed

text \<open>
  The claim as the specification states it, with the exact sum, fails for the values
  \<open>2^53\<close>, 1, 1: the third bar ends at \<open>2^53\<close>, and the sum of the three values is
  \<open>2^53 + 2\<close>.
\<close>

theorem step_bars_exact_sum_fails:
  "list_all (\<lambda>b. barType b = Step) (bars bigSteps)
   \<and> map totalValue (bars bigSteps) = [9007199254740992, 1, 1]
   \<and> endY (bars (computeBarPositions defaultChart 800 600 bigSteps) ! 2) = 9007199254740992
   \<and> sum_list (map totalValue (bars bigSteps)) = 9007199254740994"
proof -
  have steps: "list_all (\<lambda>b. barType b = Step) (bars bigSteps)"
    by (simp add: bigSteps_def visualWith_def parsedBar_def)
  have len: "2 < length (bars bigSteps)"
    by (simp add: bigSteps_def visualWith_def)
  have vals: "map totalValue (bars bigSteps) = [9007199254740992, 1, 1]"
    by (simp add: bigSteps_def visualWith_def parsedBar_def)
  have "endY (bars (computeBarPositions defaultChart 800 600 bigSteps) ! 2)
      = foldl fadd 0 (map totalValue (take (Suc 2) (bars bigSteps)))"
    using steps len by (rule step_bar_span(2))
  also have "Suc 2 = 3" by simp
  also have "foldl fadd 0 (map totalValue (take 3 (bars bigSteps))) = 9007199254740992"
    by (simp add: vals farith rnd_2_53 rnd_2_53_plus_1 flip: take_map)
  finally show ?thesis
    using steps by (simp add: vals)
qed

text \<open>
  Claim C2. A \<open>subtotal\<close> or \<open>total\<close> bar at index \<open>i\<close> gets \<open>startY = 0\<close> and
  \<open>endY\<close> equal to the \<open>runningTotal\<close> the loop holds when it reaches the bar, and the
  state of the loop after the bar is the state before it, whatever that state is.
\<close>

theorem subtotal_total_keep_state:
  assumes "i < length (bars this)"
    and "barType (bars this ! i) = Subtotal \<or> barType (bars this ! i) = Total"
  shows "startY (bars (computeBarPositions cs vw vh this) ! i) = 0
       \<and> endY (bars (computeBarPositions cs vw vh this) ! i)
           = runningTotal (yStateAfter i (bars this))
       \<and> yStateAfter (Suc i) (bars this) = yStateAfter i (bars this)
       \<and> (\<forall>st. snd (yStep st (bars this ! i)) = st)"
  using assms by (auto simp: computeBarPositions_nth yStateAfter_Suc yStep_def)

theorem subtotal_total_keep_state_witness:
  "2 < length (bars waterfall) \<and> barType (bars waterfall ! 2) = Subtotal
   \<and> startY (bars (computeBarPositions defaultChart 800 600 waterfall) ! 2) = 0
   \<and> endY (bars (computeBarPositions defaultChart 800 600 waterfall) ! 2) = 150
   \<and> yStateAfter 3 (bars waterfall) = yStateAfter 2 (bars waterfall)"
proof -
  have len: "2 < length (bars waterfall)"
    by (simp add: waterfall_def visualWith_def)
  have ty: "barType (bars waterfall ! 2) = Subtotal \<or> barType (bars waterfall ! 2) = Total"
    by (simp add: waterfall_def visualWith_def parsedBar_def)
  have two: "take 2 (bars waterfall) = [parsedBar ''Start'' Step 0 100, parsedBar ''Add'' Step 1 50]"
    by (simp add: waterfall_def visualWith_def numeral_2_eq_2)
  have rt: "runningTotal (yStateAfter 2 (bars waterfall)) = 150"
    by (simp add: yStateAfter_def two yLoop_Cons yStep_def yInit_def parsedBar_def Let_def
        farith rnd_exact)
  have three: "Suc 2 = 3" by simp
  show ?thesis
    using subtotal_total_keep_state[OF len ty, of defaultChart 800 600] len
    by (simp add: rt three) (simp add: waterfall_def visualWith_def parsedBar_def)
qed

text \<open>
  Claim C3. A \<open>bar\<close>-type bar at index \<open>i\<close> gets \<open>startY = 0\<close> and \<open>endY\<close> equal to its
  \<open>totalValue\<close>, from every state of the loop, and the state after the bar is the state
  before it.
\<close>

theorem bar_type_span:
  assumes "i < length (bars this)"
    and "barType (bars this ! i) = Bar"
  shows "startY (bars (computeBarPositions cs vw vh this) ! i) = 0
       \<and> endY (bars (computeBarPositions cs vw vh this) ! i) = totalValue (bars this ! i)
       \<and> yStateAfter (Suc i) (bars this) = yStateAfter i (bars this)
       \<and> (\<forall>st. startY (fst (yStep st (bars this ! i))) = 0
              \<and> endY (fst (yStep st (bars this ! i))) = totalValue (bars this ! i)
              \<and> snd (yStep st (bars this ! i)) = st)"
  using assms by (auto simp: computeBarPositions_nth yStateAfter_Suc yStep_def)

theorem bar_type_span_witness:
  "3 < length (bars waterfall) \<and> barType (bars waterfall ! 3) = Bar
   \<and> startY (bars (computeBarPositions defaultChart 800 600 waterfall) ! 3) = 0
   \<and> endY (bars (computeBarPositions defaultChart 800 600 waterfall) ! 3) = 30
   \<and> yStateAfter 4 (bars waterfall) = yStateAfter 3 (bars waterfall)"
proof -
  have len: "3 < length (bars waterfall)"
    by (simp add: waterfall_def visualWith_def)
  have ty: "barType (bars waterfall ! 3) = Bar"
    by (simp add: waterfall_def visualWith_def parsedBar_def)
  have tv: "totalValue (bars waterfall ! 3) = 30"
    by (simp add: waterfall_def visualWith_def parsedBar_def)
  have four: "Suc 3 = 4" by simp
  show ?thesis
    using bar_type_span[OF len ty, of defaultChart 800 600] len ty
    by (simp add: tv four)
qed

subsection \<open>Horizontal packing\<close>


lemma waterfall_sizes:
  "dynamicBarWidth defaultChart 260 4 = 40"
  "dynamicBarGap defaultChart 260 4 = 10"
  by (simp_all add: dynamicBarWidth_def dynamicBarGap_def availableWidth_def totalUnits_def
      gapRatio_def marginLeft_def marginRight_def defaultChart_def farith rnd_exact rnd_small)

lemma waterfall_positioned:
  "computeBarPositions defaultChart 260 600 waterfall
     = waterfall\<lparr>bars := fst (yLoop yInit (xLoop 40 10 50 (bars waterfall))),
                  computedBarWidth := Some 40, computedBarGap := Some 10\<rparr>"
proof -
  have "length (bars waterfall) = 4"
    by (simp add: waterfall_def visualWith_def)
  then show ?thesis
    by (simp add: computeBarPositions_def Let_def waterfall_sizes marginLeft_def)
qed

lemma waterfall_layout:
  "map xPosition (bars (computeBarPositions defaultChart 260 600 waterfall)) = [50, 100, 150, 200]"
  "map barType (bars (computeBarPositions defaultChart 260 600 waterfall))
     = [Step, Step, Subtotal, Bar]"
  "computedBarWidth (computeBarPositions defaultChart 260 600 waterfall) = Some 40"
  "computedBarGap (computeBarPositions defaultChart 260 600 waterfall) = Some 10"
  by (simp_all add: waterfall_positioned)
     (simp_all add: waterfall_def visualWith_def parsedBar_def yLoop_Cons yStep_def yInit_def
        farith rnd_exact)



section \<open>Properties of the value formatting\<close>

lemma rnd_billions: "rnd (123456789 / 100000000) = 5559999489367579 / 4503599627370496"
proof -
  have "rnd (123456789 / 100000000)
      = of_int (roundEven ((123456789 / 100000000) / 2 powr of_int (0 - 52)))
          * 2 powr of_int (0 - 52)"
    by (rule rnd_in_binade) simp_all
  also have "(123456789 / 100000000) / 2 powr of_int (0 - 52)
      = (2171874800534210740224 / 390625 :: real)"
    by (simp add: powr_neg_numeral)
  also have "roundEven (2171874800534210740224 / 390625) = 5559999489367579"
    by (simp add: roundEven_def Let_def)
  finally show ?thesis
    by (simp add: powr_neg_numeral)
qed

lemmas formatValue_unfold =
  formatValue_def fixed0or2_def toFixed_def fracDigits_def frac_def showNat.simps Let_def
  matchesHere_def zerosToEnd_def fdiv_def

lemma formatValue_0: "formatValue h (Some 0) = ''0''"
  by (simp add: formatValue_def)

lemma formatValue_1500: "formatValue h (Some 1500) = ''1.50K''"
  by (simp add: formatValue_unfold rnd_3_2)

lemma formatValue_2000000: "formatValue h (Some 2000000) = ''2M''"
  by (simp add: formatValue_unfold rnd_exact)

lemma formatValue_minus_950: "formatValue h (Some (- 950)) = ''-950''"
  by (simp add: formatValue_unfold)

lemma formatValue_1234567890: "formatValue h (Some 1234567890) = ''1.2B''"
  by (simp add: formatValue_unfold rnd_billions)

text \<open>
  Claim C5, as the code has it: \<open>formatValue\<close> maps 0 to \<open>0\<close>, 1500 to \<open>1.50K\<close>,
  2000000 to \<open>2M\<close>, -950 to \<open>-950\<close> and 1234567890 to \<open>1.2B\<close>. A thousands or
  millions value that is not a whole number is printed with two decimals, and its
  trailing zero is kept.
\<close>

theorem formatValue_representative:
  "formatValue h (Some 0) = ''0''
   \<and> formatValue h (Some 1500) = ''1.50K''
   \<and> formatValue h (Some 2000000) = ''2M''
   \<and> formatValue h (Some (- 950)) = ''-950''
   \<and> formatValue h (Some 1234567890) = ''1.2B''"
  by (simp only: formatValue_0 formatValue_1500 formatValue_2000000 formatValue_minus_950
      formatValue_1234567890 simp_thms)

text \<open>The claim as the specification states it fails at 1500: the result is not \<open>1.5K\<close>.\<close>

theorem formatValue_1500_not_short: "formatValue plainHost (Some 1500) \<noteq> ''1.5K''"
  by (simp add: formatValue_1500)

section \<open>Properties of the row parser\<close>

subsection \<open>The loops, unfolded\<close>

lemma rowLoop_eq:
  "rowLoop h dc c0 c1 sq cols i acc
     = acc @ map (parseRow h dc c0 c1 sq cols) [i..<length (catValues c0)]"
proof (induction h dc c0 c1 sq cols i acc rule: rowLoop.induct)
  case (1 h dc c0 c1 sq cols i acc)
  show ?case
  proof (cases "i < length (catValues c0)")
    case True
    with "1.IH" show ?thesis
      by (subst rowLoop.simps) (simp add: upt_conv_Cons)
  next
    case False
    then show ?thesis
      by (subst rowLoop.simps) simp
  qed
qed

lemma stackLoop_eq:
  "stackLoop h dc cols i v acc =
     (fst acc @ map (\<lambda>k. \<lparr>measureName = measureNameOf (cols ! k) k,
                          val = measureValue h (cols ! k) i,
                          color = colorOf h dc (measureNameOf (cols ! k) k)\<rparr>)
                (filter (\<lambda>k. measureValue h (cols ! k) i \<noteq> 0) [v..<length cols]),
      foldl fadd (snd acc)
        (map (\<lambda>k. measureValue h (cols ! k) i)
           (filter (\<lambda>k. measureValue h (cols ! k) i \<noteq> 0) [v..<length cols])))"
proof (induction h dc cols i v acc rule: stackLoop.induct)
  case (1 h dc cols i v acc)
  show ?case
  proof (cases "v < length cols")
    case False
    then show ?thesis
      by (subst stackLoop.simps) simp
  next
    case True
    show ?thesis
    proof (cases "measureValue h (cols ! v) i = 0")
      case True
      with \<open>v < length cols\<close> "1.IH"(2)[OF \<open>v < length cols\<close> refl refl] show ?thesis
        by (subst stackLoop.simps) (simp add: upt_conv_Cons Let_def)
    next
      case False
      with \<open>v < length cols\<close> "1.IH"(1)[OF \<open>v < length cols\<close> refl refl _ refl refl] show ?thesis
        by (subst stackLoop.simps) (simp add: upt_conv_Cons Let_def)
    qed
  qed
qed

lemma map_nth_cols: "map (\<lambda>k. f (cols ! k)) [0..<length cols] = map f cols"
proof -
  have "map (\<lambda>k. f (cols ! k)) [0..<length cols] = map f (map ((!) cols) [0..<length cols])"
    by (simp add: o_def)
  then show ?thesis
    by (simp only: map_nth)
qed

lemma parseRow_stack:
  "stackedValues (parseRow h dc c0 c1 sq cols i)
     = map (\<lambda>k. \<lparr>measureName = measureNameOf (cols ! k) k,
                  val = measureValue h (cols ! k) i,
                  color = colorOf h dc (measureNameOf (cols ! k) k)\<rparr>)
         (filter (\<lambda>k. measureValue h (cols ! k) i \<noteq> 0) [0..<length cols])"
  "totalValue (parseRow h dc c0 c1 sq cols i)
     = foldl fadd 0
         (map (\<lambda>k. measureValue h (cols ! k) i)
            (filter (\<lambda>k. measureValue h (cols ! k) i \<noteq> 0) [0..<length cols]))"
  by (simp_all add: parseRow_def Let_def stackLoop_eq)

lemma parseRow_vals:
  "map val (stackedValues (parseRow h dc c0 c1 sq cols i))
     = filter (\<lambda>x. x \<noteq> 0) (map (\<lambda>c. measureValue h c i) cols)"
proof -
  have "map val (stackedValues (parseRow h dc c0 c1 sq cols i))
      = map (\<lambda>k. measureValue h (cols ! k) i)
          (filter (\<lambda>k. measureValue h (cols ! k) i \<noteq> 0) [0..<length cols])"
    by (simp add: parseRow_stack o_def)
  also have "\<dots> = filter (\<lambda>x. x \<noteq> 0) (map (\<lambda>k. measureValue h (cols ! k) i) [0..<length cols])"
    by (simp add: filter_map o_def)
  also have "\<dots> = filter (\<lambda>x. x \<noteq> 0) (map (\<lambda>c. measureValue h c i) cols)"
    by (simp only: map_nth_cols[of "\<lambda>c. measureValue h c i" cols])
  finally show ?thesis .
qed

lemma parseRow_total:
  "totalValue (parseRow h dc c0 c1 sq cols i)
     = foldl fadd 0 (map val (stackedValues (parseRow h dc c0 c1 sq cols i)))"
  by (simp add: parseRow_stack o_def)

text \<open>A measure cell that holds a number contributes that number.\<close>

lemma measureValue_number:
  "elemAt (colValues c) i = PNumber r \<Longrightarrow> measureValue h c i = r"
  by (simp add: measureValue_def toNumber_def)

lemma measureValues_numbers:
  assumes "map (\<lambda>c. elemAt (colValues c) i) cols = map PNumber rs"
  shows "map (\<lambda>c. measureValue h c i) cols = rs"
proof -
  from assms have len: "length cols = length rs"
    by (metis length_map)
  have "measureValue h (cols ! k) i = rs ! k" if "k < length cols" for k
  proof -
    from that len have "map (\<lambda>c. elemAt (colValues c) i) cols ! k = map PNumber rs ! k"
      by (simp only: assms)
    with that len have "elemAt (colValues (cols ! k)) i = PNumber (rs ! k)"
      by simp
    then show ?thesis by (rule measureValue_number)
  qed
  with len show ?thesis
    by (simp add: list_eq_iff_nth_eq)
qed

subsection \<open>Stacked values\<close>

text \<open>
  Claim C7, as the code has it. For the record parsed from row \<open>i\<close>: the values of its
  \<open>stackedValues\<close> are the measure values of the row, in column order, with exactly
  the zeros left out, and the names are those of the columns kept; where the measure
  cells of the row hold the numbers \<open>rs\<close>, the values kept are the non-zero numbers of
  \<open>rs\<close> themselves, sign included. \<open>totalValue\<close> is the running sum of the values
  kept, from 0, in order, each addition rounded to a double as the language does.
\<close>

theorem zero_measures_dropped:
  "map val (stackedValues (parseRow h dc c0 c1 sq cols i))
     = filter (\<lambda>x. x \<noteq> 0) (map (\<lambda>c. measureValue h c i) cols)
   \<and> map measureName (stackedValues (parseRow h dc c0 c1 sq cols i))
     = map (\<lambda>k. measureNameOf (cols ! k) k)
         (filter (\<lambda>k. measureValue h (cols ! k) i \<noteq> 0) [0..<length cols])
   \<and> totalValue (parseRow h dc c0 c1 sq cols i)
     = foldl fadd 0 (map val (stackedValues (parseRow h dc c0 c1 sq cols i)))
   \<and> (\<forall>rs. map (\<lambda>c. elemAt (colValues c) i) cols = map PNumber rs \<longrightarrow>
         map val (stackedValues (parseRow h dc c0 c1 sq cols i)) = filter (\<lambda>x. x \<noteq> 0) rs)"
proof (intro conjI allI impI)
  show "map val (stackedValues (parseRow h dc c0 c1 sq cols i))
     = filter (\<lambda>x. x \<noteq> 0) (map (\<lambda>c. measureValue h c i) cols)"
    by (rule parseRow_vals)
  show "map measureName (stackedValues (parseRow h dc c0 c1 sq cols i))
     = map (\<lambda>k. measureNameOf (cols ! k) k)
         (filter (\<lambda>k. measureValue h (cols ! k) i \<noteq> 0) [0..<length cols])"
    by (simp add: parseRow_stack o_def)
  show "totalValue (parseRow h dc c0 c1 sq cols i)
     = foldl fadd 0 (map val (stackedValues (parseRow h dc c0 c1 sq cols i)))"
    by (rule parseRow_total)
next
  fix rs
  assume "map (\<lambda>c. elemAt (colValues c) i) cols = map PNumber rs"
  then have "map (\<lambda>c. measureValue h c i) cols = rs"
    by (rule measureValues_numbers)
  then show "map val (stackedValues (parseRow h dc c0 c1 sq cols i)) = filter (\<lambda>x. x \<noteq> 0) rs"
    by (simp only: parseRow_vals)
qed

text \<open>The rows 0 and 1 of the example: measures 10 and -2, then 0 and 4.\<close>

theorem zero_measures_dropped_witness:
  "map (\<lambda>c. elemAt (colValues c) 0) amountTax = map PNumber [10, - 2]
   \<and> map val (stackedValues (parseRow plainHost ''#4472C4'' \<lparr>catValues = []\<rparr>
         \<lparr>catValues = []\<rparr> None amountTax 0)) = [10, - 2]
   \<and> totalValue (parseRow plainHost ''#4472C4'' \<lparr>catValues = []\<rparr>
         \<lparr>catValues = []\<rparr> None amountTax 0) = 8
   \<and> map (\<lambda>c. elemAt (colValues c) 1) amountTax = map PNumber [0, 4]
   \<and> map val (stackedValues (parseRow plainHost ''#4472C4'' \<lparr>catValues = []\<rparr>
         \<lparr>catValues = []\<rparr> None amountTax 1)) = [4]
   \<and> map measureName (stackedValues (parseRow plainHost ''#4472C4'' \<lparr>catValues = []\<rparr>
         \<lparr>catValues = []\<rparr> None amountTax 1)) = [''Tax'']
   \<and> totalValue (parseRow plainHost ''#4472C4'' \<lparr>catValues = []\<rparr>
         \<lparr>catValues = []\<rparr> None amountTax 1) = 4"
proof -
  let ?row = "parseRow plainHost ''#4472C4'' \<lparr>catValues = []\<rparr> \<lparr>catValues = []\<rparr> None amountTax"
  have c0: "map (\<lambda>c. elemAt (colValues c) 0) amountTax = map PNumber [10, - 2]"
    by (simp add: amountTax_def elemAt_def)
  have c1: "map (\<lambda>c. elemAt (colValues c) 1) amountTax = map PNumber [0, 4]"
    by (simp add: amountTax_def elemAt_def)
  note r0 = zero_measures_dropped[of plainHost "''#4472C4''" "\<lparr>catValues = []\<rparr>"
      "\<lparr>catValues = []\<rparr>" None amountTax 0]
  note r1 = zero_measures_dropped[of plainHost "''#4472C4''" "\<lparr>catValues = []\<rparr>"
      "\<lparr>catValues = []\<rparr>" None amountTax 1]
  from r0[THEN conjunct2, THEN conjunct2, THEN conjunct2, rule_format, OF c0]
  have v0: "map val (stackedValues (?row 0)) = [10, - 2]"
    by simp
  from r0 have "totalValue (?row 0) = foldl fadd 0 (map val (stackedValues (?row 0)))"
    by blast
  then have "totalValue (?row 0) = foldl fadd 0 [10, - 2]"
    by (simp only: v0)
  then have t0: "totalValue (?row 0) = 8"
    by (simp add: farith rnd_exact)
  from r1[THEN conjunct2, THEN conjunct2, THEN conjunct2, rule_format, OF c1]
  have v1: "map val (stackedValues (?row 1)) = [4]"
    by simp
  from r1 have "totalValue (?row 1) = foldl fadd 0 (map val (stackedValues (?row 1)))"
    by blast
  then have "totalValue (?row 1) = foldl fadd 0 [4]"
    by (simp only: v1)
  then have t1: "totalValue (?row 1) = 4"
    by (simp add: farith rnd_exact)
  from r1 have "map measureName (stackedValues (?row 1))
     = map (\<lambda>k. measureNameOf (amountTax ! k) k)
         (filter (\<lambda>k. measureValue plainHost (amountTax ! k) 1 \<noteq> 0) [0..<length amountTax])"
    by blast
  also have "\<dots> = [''Tax'']"
    by (simp add: amountTax_def upt_rec measureValue_def toNumber_def elemAt_def measureNameOf_def)
  finally have n1: "map measureName (stackedValues (?row 1)) = [''Tax'']" .
  from c0 v0 t0 c1 v1 n1 t1 show ?thesis
    by (intro conjI)
qed

text \<open>
  The claim as the specification states it, with the exact sum, fails for a row with
  the measures \<open>2^53\<close>, 1, 1: all three values are kept, \<open>totalValue\<close> is \<open>2^53\<close>, and
  the sum of the three values is \<open>2^53 + 2\<close>.
\<close>

theorem total_exact_sum_fails:
  "map (\<lambda>b. map val (stackedValues b)) (parseData plainHost plainColors bigMeasures)
     = [[9007199254740992, 1, 1]]
   \<and> map totalValue (parseData plainHost plainColors bigMeasures) = [9007199254740992]
   \<and> sum_list [9007199254740992, 1, 1 :: real] = 9007199254740994"
proof -
  let ?cols = "[\<lparr>displayName = Some ''Base'', colValues = [PNumber 9007199254740992]\<rparr>,
                \<lparr>displayName = Some ''One'', colValues = [PNumber 1]\<rparr>,
                \<lparr>displayName = Some ''More'', colValues = [PNumber 1]\<rparr>]"
  let ?row = "parseRow plainHost ''#4472C4'' \<lparr>catValues = [PString ''Sum'']\<rparr>
                \<lparr>catValues = [PString ''step'']\<rparr> None ?cols 0"
  have parsed: "parseData plainHost plainColors bigMeasures = [?row]"
    by (simp add: bigMeasures_def parseData_def tableOf_def Let_def rowLoop_eq sortBySequence_def
        plainColors_def upt_rec)
  have cells: "map (\<lambda>c. elemAt (colValues c) 0) ?cols = map PNumber [9007199254740992, 1, 1]"
    by (simp add: elemAt_def)
  have "map (\<lambda>c. measureValue plainHost c 0) ?cols = [9007199254740992, 1, 1]"
    using cells by (rule measureValues_numbers)
  then have vals: "map val (stackedValues ?row) = [9007199254740992, 1, 1]"
    by (simp only: parseRow_vals) simp
  have "totalValue ?row = foldl fadd 0 (map val (stackedValues ?row))"
    by (rule parseRow_total)
  then have total: "totalValue ?row = 9007199254740992"
    by (simp add: vals farith rnd_2_53 rnd_2_53_plus_1)
  show ?thesis
    by (simp add: parsed vals total)
qed

subsection \<open>Count and order of the parsed bars\<close>

lemma parseData_present:
  assumes "categorical dv = Some c" and "categories c = Some cats" and "2 \<le> length cats"
  shows "parseData h colors dv =
     sortBySequence
       (rowLoop h (defaultBarColor colors) (cats ! 0) (cats ! 1)
          (if length cats > 2 then Some (cats ! 2) else None)
          (case valueColumns c of None \<Rightarrow> [] | Some vs \<Rightarrow> vs) 0 [])"
  using assms by (simp add: parseData_def Let_def)

text \<open>
  Claim C6. For a table with at least two categorical columns and \<open>n\<close> rows (the
  length of the first one), \<open>parseData\<close> returns \<open>n\<close> records, in ascending order of
  \<open>sequence\<close>; for every sequence value \<open>k\<close> the records with that value come in the
  order the row loop pushed them, and the row loop pushed the record of row 0, then of
  row 1, and so on.
\<close>

theorem parseData_count_and_order:
  assumes "categorical dv = Some c" and "categories c = Some cats" and "2 \<le> length cats"
  shows "let pushed = rowLoop h (defaultBarColor colors) (cats ! 0) (cats ! 1)
                        (if length cats > 2 then Some (cats ! 2) else None)
                        (case valueColumns c of None \<Rightarrow> [] | Some vs \<Rightarrow> vs) 0 [];
             n = length (catValues (cats ! 0))
         in length (parseData h colors dv) = n
          \<and> sorted (map sequence (parseData h colors dv))
          \<and> (\<forall>k. filter (\<lambda>b. sequence b = k) (parseData h colors dv)
                   = filter (\<lambda>b. sequence b = k) pushed)
          \<and> pushed = map (parseRow h (defaultBarColor colors) (cats ! 0) (cats ! 1)
                            (if length cats > 2 then Some (cats ! 2) else None)
                            (case valueColumns c of None \<Rightarrow> [] | Some vs \<Rightarrow> vs)) [0..<n]"
  unfolding Let_def parseData_present[OF assms] sortBySequence_def
  by (intro conjI allI) (simp_all add: sort_key_stable rowLoop_eq)

lemmas parse_example_unfold =
  parseData_def tableOf_def Let_def rowLoop_eq sortBySequence_def parseRow_def
  stringOr_def truthy_def toString_def sequenceOf_def toNumber_def elemAt_def upt_rec

lemma tiedRows_parsed:
  "map category (parseData plainHost plainColors tiedRows) = [''B'', ''C'', ''A'', ''D'']"
  "map sequence (parseData plainHost plainColors tiedRows) = [1, 1, 2, 3]"
  by (simp_all add: tiedRows_def parse_example_unfold)

theorem parseData_count_and_order_witness:
  "categorical tiedRows \<noteq> None
   \<and> length (parseData plainHost plainColors tiedRows) = 4
   \<and> sorted (map sequence (parseData plainHost plainColors tiedRows))
   \<and> map category (parseData plainHost plainColors tiedRows) = [''B'', ''C'', ''A'', ''D'']
   \<and> map sequence (parseData plainHost plainColors tiedRows) = [1, 1, 2, 3]"
proof -
  let ?c = "\<lparr>categories = Some (map (\<lambda>vs. \<lparr>catValues = vs\<rparr>)
                [[PString ''A'', PString ''B'', PString ''C'', PString ''D''],
                 [PString ''step'', PString ''Step'', PString ''subtotal'', PString ''bar''],
                 [PNumber 2, PNumber 1, PNumber 1, PUndefined]]),
             valueColumns = Some (map (\<lambda>(n, vs). \<lparr>displayName = Some n, colValues = vs\<rparr>)
                [(''Amount'', [PNumber 10, PNumber 0, PNumber 5, PNumber 7]),
                 (''Tax'', [PNumber (- 2), PNumber 4, PNull, PNumber 0])])\<rparr>"
  let ?cats = "map (\<lambda>vs. \<lparr>catValues = vs\<rparr>)
                [[PString ''A'', PString ''B'', PString ''C'', PString ''D''],
                 [PString ''step'', PString ''Step'', PString ''subtotal'', PString ''bar''],
                 [PNumber 2, PNumber 1, PNumber 1, PUndefined]]"
  have c: "categorical tiedRows = Some ?c"
    by (simp add: tiedRows_def tableOf_def)
  have cats: "categories ?c = Some ?cats"
    by simp
  have two: "2 \<le> length ?cats"
    by simp
  from parseData_count_and_order[OF c cats two, of plainHost plainColors]
  have "length (parseData plainHost plainColors tiedRows) = 4
      \<and> sorted (map sequence (parseData plainHost plainColors tiedRows))"
    by (simp add: Let_def)
  with c show ?thesis
    by (simp add: tiedRows_parsed)
qed

subsection \<open>A sequence value of zero\<close>

text \<open>
  Claim C10. With a sequence column present, a row at index \<open>i\<close> whose sequence cell
  converts to \<open>NaN\<close> (missing or not numeric) or to exactly 0 is parsed with
  \<open>sequence = i\<close>: a supplied 0 is replaced by the position of the row.
\<close>

theorem zero_sequence_is_row_index:
  assumes "toNumber h (elemAt (catValues sequenceColumn) i) = None
         \<or> toNumber h (elemAt (catValues sequenceColumn) i) = Some 0"
  shows "sequence (parseRow h dc categoryColumn barTypeColumn (Some sequenceColumn) cols i)
           = real i"
  using assms by (auto simp: parseRow_def Let_def sequenceOf_def)

text \<open>In the example the row tagged 0 is parsed with sequence 1 and sorts last.\<close>

theorem zero_sequence_is_row_index_witness:
  "toNumber plainHost (elemAt (catValues \<lparr>catValues = [PNumber (1 / 2), PNumber 0]\<rparr>) 1) = Some 0
   \<and> sequence (parseRow plainHost ''#4472C4'' \<lparr>catValues = [PString ''A'', PString ''B'']\<rparr>
        \<lparr>catValues = [PString ''step'', PString ''step'']\<rparr>
        (Some \<lparr>catValues = [PNumber (1 / 2), PNumber 0]\<rparr>)
        [\<lparr>displayName = Some ''Amount'', colValues = [PNumber 10, PNumber 20]\<rparr>] 1) = 1
   \<and> map category (parseData plainHost plainColors zeroTagged) = [''A'', ''B'']
   \<and> map sequence (parseData plainHost plainColors zeroTagged) = [1 / 2, 1]"
proof -
  have zero: "toNumber plainHost (elemAt (catValues \<lparr>catValues = [PNumber (1 / 2), PNumber 0]\<rparr>) 1)
      = Some 0"
    by (simp add: toNumber_def elemAt_def)
  have parsed:
    "map category (parseData plainHost plainColors zeroTagged) = [''A'', ''B'']"
    "map sequence (parseData plainHost plainColors zeroTagged) = [1 / 2, 1]"
    by (simp_all add: zeroTagged_def parse_example_unfold)
  show ?thesis
    using zero_sequence_is_row_index[OF disjI2[OF zero], of "''#4472C4''"
        "\<lparr>catValues = [PString ''A'', PString ''B'']\<rparr>"
        "\<lparr>catValues = [PString ''step'', PString ''step'']\<rparr>"
        "[\<lparr>displayName = Some ''Amount'', colValues = [PNumber 10, PNumber 20]\<rparr>]"]
      zero parsed
    by simp
qed


section \<open>Properties of the draw stage\<close>

subsection \<open>The separator search\<close>

lemma findSeparator_miss:
  "\<forall>j. i \<le> j \<and> j < length bs \<longrightarrow> \<not> isBoundary bs j \<Longrightarrow> findSeparator bs gap i = - 1"
proof (induction bs gap i rule: findSeparator.induct)
  case (1 bs gap i)
  show ?case
  proof (cases "i < length bs")
    case False
    then show ?thesis by (subst findSeparator.simps) simp
  next
    case True
    with "1.prems" have nb: "\<not> isBoundary bs i" by simp
    from "1.prems" have "\<forall>j. Suc i \<le> j \<and> j < length bs \<longrightarrow> \<not> isBoundary bs j" by simp
    from "1.IH"[OF True nb this] True nb show ?thesis
      by (subst findSeparator.simps) simp
  qed
qed

lemma findSeparator_hit:
  "i \<le> k \<Longrightarrow> k < length bs \<Longrightarrow> isBoundary bs k
   \<Longrightarrow> \<forall>j. i \<le> j \<and> j < k \<longrightarrow> \<not> isBoundary bs j
   \<Longrightarrow> findSeparator bs gap i = fsub (xPosition (bs ! k)) (fdiv gap 2)"
proof (induction bs gap i rule: findSeparator.induct)
  case (1 bs gap i)
  from "1.prems"(1,2) have lt: "i < length bs" by simp
  show ?case
  proof (cases "i = k")
    case True
    with "1.prems" lt show ?thesis by (subst findSeparator.simps) simp
  next
    case False
    with "1.prems"(1) have ik: "i < k" by simp
    with "1.prems"(4) have nb: "\<not> isBoundary bs i" by simp
    from ik have le: "Suc i \<le> k" by simp
    from "1.prems"(4) have rest: "\<forall>j. Suc i \<le> j \<and> j < k \<longrightarrow> \<not> isBoundary bs j" by simp
    from "1.IH"[OF lt nb le "1.prems"(2,3) rest] lt nb show ?thesis
      by (subst findSeparator.simps) simp
  qed
qed

lemma first_boundary:
  assumes "\<exists>i<length bs. isBoundary bs i"
  obtains k where "k < length bs" "isBoundary bs k" "\<forall>j<k. \<not> isBoundary bs j"
proof -
  define Q where "Q i \<longleftrightarrow> i < length bs \<and> isBoundary bs i" for i
  from assms have ex: "\<exists>i. Q i" by (auto simp: Q_def)
  define k where "k = (LEAST i. Q i)"
  from ex have "Q k" unfolding k_def by (auto intro: LeastI)
  moreover have "\<not> Q j" if "j < k" for j
    using that unfolding k_def by (rule not_less_Least)
  ultimately show thesis
    using that[of k] by (auto simp: Q_def)
qed

lemma separator_char:
  "separator (renderChart cs w h this) = Some x \<longleftrightarrow>
     (\<exists>i<length (bars this).
        isBoundary (bars this) i \<and> (\<forall>j<i. \<not> isBoundary (bars this) j)
        \<and> x = fsub (xPosition (bars this ! i))
                  (fdiv (orSetting (computedBarGap this) (barGap cs)) 2)
        \<and> 0 < x)"
  (is "?L \<longleftrightarrow> ?R")
proof
  let ?g = "orSetting (computedBarGap this) (barGap cs)"
  let ?bs = "bars this"
  assume ?L
  then have pos: "0 < findSeparator ?bs ?g 0" and x: "x = findSeparator ?bs ?g 0"
    by (auto simp: renderChart_def Let_def split: if_splits)
  have ex: "\<exists>i<length ?bs. isBoundary ?bs i"
  proof (rule ccontr)
    assume "\<not> ?thesis"
    then have "\<forall>j. 0 \<le> j \<and> j < length ?bs \<longrightarrow> \<not> isBoundary ?bs j" by simp
    from findSeparator_miss[OF this, of ?g] pos show False by simp
  qed
  then obtain k where k: "k < length ?bs" "isBoundary ?bs k" "\<forall>j<k. \<not> isBoundary ?bs j"
    by (rule first_boundary)
  from k(3) have "\<forall>j. 0 \<le> j \<and> j < k \<longrightarrow> \<not> isBoundary ?bs j" by simp
  from findSeparator_hit[OF _ k(1,2) this, of ?g]
  have "findSeparator ?bs ?g 0 = fsub (xPosition (?bs ! k)) (fdiv ?g 2)" by simp
  with pos x k show ?R by auto
next
  let ?g = "orSetting (computedBarGap this) (barGap cs)"
  let ?bs = "bars this"
  assume ?R
  then obtain k where k: "k < length ?bs" "isBoundary ?bs k" "\<forall>j<k. \<not> isBoundary ?bs j"
    and x: "x = fsub (xPosition (?bs ! k)) (fdiv ?g 2)" "0 < x"
    by auto
  from k(3) have "\<forall>j. 0 \<le> j \<and> j < k \<longrightarrow> \<not> isBoundary ?bs j" by simp
  from findSeparator_hit[OF _ k(1,2) this, of ?g]
  have "findSeparator ?bs ?g 0 = fsub (xPosition (?bs ! k)) (fdiv ?g 2)" by simp
  with x show ?L
    by (simp add: renderChart_def Let_def)
qed

text \<open>
  Claim C9, as the code has it. The draw stage appends a separator line at \<open>x\<close> if and
  only if the bar list has a boundary (an index \<open>i > 0\<close> whose bar is of type \<open>bar\<close> and
  whose predecessor is not), \<open>x\<close> is the x-position of the bar at the first boundary
  minus half the gap the draw stage uses (the computed gap, or the configured one when
  the computed gap is zero), in the arithmetic of the language, and that \<open>x\<close> is
  greater than 0. There is at most one separator, and none without a boundary.
\<close>

theorem separator_at_first_boundary:
  "(separator (renderChart cs w h this) = Some x \<longleftrightarrow>
     (\<exists>i<length (bars this).
        isBoundary (bars this) i \<and> (\<forall>j<i. \<not> isBoundary (bars this) j)
        \<and> x = fsub (xPosition (bars this ! i))
                  (fdiv (orSetting (computedBarGap this) (barGap cs)) 2)
        \<and> 0 < x))
   \<and> ((\<forall>i<length (bars this). \<not> isBoundary (bars this) i)
        \<longrightarrow> separator (renderChart cs w h this) = None)"
proof (intro conjI impI)
  show "separator (renderChart cs w h this) = Some x \<longleftrightarrow>
     (\<exists>i<length (bars this).
        isBoundary (bars this) i \<and> (\<forall>j<i. \<not> isBoundary (bars this) j)
        \<and> x = fsub (xPosition (bars this ! i))
                  (fdiv (orSetting (computedBarGap this) (barGap cs)) 2)
        \<and> 0 < x)"
    by (rule separator_char)
next
  assume none: "\<forall>i<length (bars this). \<not> isBoundary (bars this) i"
  show "separator (renderChart cs w h this) = None"
  proof (cases "separator (renderChart cs w h this)")
    case None
    then show ?thesis .
  next
    case (Some y)
    then have "\<exists>i<length (bars this). isBoundary (bars this) i"
      by (auto simp: separator_char)
    with none show ?thesis by blast
  qed
qed

theorem separator_at_first_boundary_witness:
  "separator (renderChart defaultChart 260 600 (computeBarPositions defaultChart 260 600 waterfall))
     = Some 195
   \<and> isBoundary (bars (computeBarPositions defaultChart 260 600 waterfall)) 3
   \<and> separator (renderChart defaultChart 260 600 stepsOnly) = None"
proof -
  let ?out = "computeBarPositions defaultChart 260 600 waterfall"
  have len: "length (bars ?out) = 4"
    using arg_cong[OF waterfall_layout(1), of length] by simp
  have nth: "bars ?out ! i = b \<Longrightarrow> xPosition b = map xPosition (bars ?out) ! i
      \<and> barType b = map barType (bars ?out) ! i" if "i < 4" for i b
    using that len by auto
  have b3: "isBoundary (bars ?out) 3"
    using nth[of 3, OF _ refl] nth[of 2, OF _ refl]
    by (simp add: isBoundary_def waterfall_layout)
  have first: "\<forall>j<3. \<not> isBoundary (bars ?out) j"
  proof (intro allI impI)
    fix j :: nat
    assume "j < 3"
    then consider "j = 0" | "j = 1" | "j = 2" by linarith
    then show "\<not> isBoundary (bars ?out) j"
      using nth[of 0, OF _ refl] nth[of 1, OF _ refl] nth[of 2, OF _ refl]
      by cases (simp_all add: isBoundary_def waterfall_layout)
  qed
  have x3: "xPosition (bars ?out ! 3) = 200"
    using nth[of 3, OF _ refl] by (simp add: waterfall_layout)
  have gap: "orSetting (computedBarGap ?out) (barGap defaultChart) = 10"
    by (simp add: waterfall_layout orSetting_def)
  have half: "fsub 200 (fdiv 10 2) = 195"
    by (simp add: farith rnd_exact)
  have "\<exists>i<length (bars ?out). isBoundary (bars ?out) i \<and> (\<forall>j<i. \<not> isBoundary (bars ?out) j)
      \<and> 195 = fsub (xPosition (bars ?out ! i))
                  (fdiv (orSetting (computedBarGap ?out) (barGap defaultChart)) 2)
      \<and> (0::real) < 195"
    by (rule exI[of _ 3]) (simp add: b3 first x3 gap len half)
  then have some: "separator (renderChart defaultChart 260 600 ?out) = Some 195"
    by (rule iffD2[OF conjunct1[OF separator_at_first_boundary[of defaultChart 260 600 ?out 195]]])
  have steps: "\<forall>i<length (bars stepsOnly). \<not> isBoundary (bars stepsOnly) i"
    by (auto simp: stepsOnly_def visualWith_def parsedBar_def isBoundary_def
        less_Suc_eq nth_Cons split: nat.splits)
  have none: "separator (renderChart defaultChart 260 600 stepsOnly) = None"
    using conjunct2[OF separator_at_first_boundary[of defaultChart 260 600 stepsOnly]] steps
    by blast
  from some b3 none show ?thesis by simp
qed

text \<open>
  The claim as the specification states it fails in a viewport of width 0: the bar list
  has a boundary at index 3, the separator position there is negative, and no separator
  is appended.
\<close>

lemma narrow_width: "rnd (- (280 / 19)) = - (2074026144183781 / 140737488355328)"
proof -
  have "rnd (- (280 / 19))
      = of_int (roundEven ((- (280 / 19)) / 2 powr of_int (3 - 52))) * 2 powr of_int (3 - 52)"
    by (rule rnd_in_binade) simp_all
  also have "(- (280 / 19)) / 2 powr of_int (3 - 52) = (- (157625986957967360 / 19) :: real)"
    by (simp add: powr_neg_numeral)
  also have "roundEven (- (157625986957967360 / 19)) = - 8296104576735124"
    by (simp add: roundEven_def Let_def)
  finally show ?thesis
    by (simp add: powr_neg_numeral)
qed

lemma narrow_gap:
  "rnd (- (2074026144183781 / 562949953421312)) = - (2074026144183781 / 562949953421312)"
  using rnd_fraction[of "- 2074026144183781" 49] by simp

lemma narrow_step:
  "rnd (- (10370130720918905 / 562949953421312)) = - (1296266340114863 / 70368744177664)"
proof -
  have "rnd (- (10370130720918905 / 562949953421312))
      = of_int (roundEven ((- (10370130720918905 / 562949953421312)) / 2 powr of_int (4 - 52)))
          * 2 powr of_int (4 - 52)"
    by (rule rnd_in_binade) simp_all
  also have "(- (10370130720918905 / 562949953421312)) / 2 powr of_int (4 - 52)
      = (- (10370130720918905 / 2) :: real)"
    by (simp add: powr_neg_numeral)
  also have "roundEven (- (10370130720918905 / 2)) = - 5185065360459452"
    by (simp add: roundEven_def Let_def)
  finally show ?thesis
    by (simp add: powr_neg_numeral)
qed

lemma narrow_positions:
  "rnd (2222170868768337 / 70368744177664) = 2222170868768337 / 70368744177664"
  "rnd (462952264326737 / 35184372088832) = 462952264326737 / 35184372088832"
  "rnd (- (370361811461389 / 70368744177664)) = - (370361811461389 / 70368744177664)"
  "rnd (- (2074026144183781 / 1125899906842624)) = - (2074026144183781 / 1125899906842624)"
  "rnd (- (3851762839198443 / 1125899906842624)) = - (3851762839198443 / 1125899906842624)"
  using rnd_fraction[of 2222170868768337 46] rnd_fraction[of 462952264326737 45]
    rnd_fraction[of "- 370361811461389" 46] rnd_fraction[of "- 2074026144183781" 50]
    rnd_fraction[of "- 3851762839198443" 50]
  by simp_all

lemma stepsThenBar_sizes:
  "dynamicBarWidth defaultChart 0 4 = - (2074026144183781 / 140737488355328)"
  "dynamicBarGap defaultChart 0 4 = - (2074026144183781 / 562949953421312)"
proof -
  have a: "availableWidth 0 = - 70"
    by (simp add: availableWidth_def marginLeft_def marginRight_def farith rnd_exact)
  have r: "gapRatio defaultChart = 1 / 4"
    by (simp add: gapRatio_def defaultChart_def farith rnd_small)
  have u: "totalUnits defaultChart 4 = 19 / 4"
    by (simp add: totalUnits_def r farith rnd_exact rnd_small)
  have bw: "barWidth defaultChart = 40"
    by (simp add: defaultChart_def)
  show w: "dynamicBarWidth defaultChart 0 4 = - (2074026144183781 / 140737488355328)"
    by (simp add: dynamicBarWidth_def a u bw farith rnd_exact narrow_width)
  show "dynamicBarGap defaultChart 0 4 = - (2074026144183781 / 562949953421312)"
    by (simp add: dynamicBarGap_def w r fmul_def narrow_gap)
qed

lemma stepsThenBar_positioned:
  "computeBarPositions defaultChart 0 600 stepsThenBar
     = stepsThenBar\<lparr>bars := fst (yLoop yInit
           (xLoop (- (2074026144183781 / 140737488355328))
              (- (2074026144183781 / 562949953421312)) 50 (bars stepsThenBar))),
         computedBarWidth := Some (- (2074026144183781 / 140737488355328)),
         computedBarGap := Some (- (2074026144183781 / 562949953421312))\<rparr>"
proof -
  have "length (bars stepsThenBar) = 4"
    by (simp add: stepsThenBar_def visualWith_def)
  then show ?thesis
    by (simp add: computeBarPositions_def Let_def stepsThenBar_sizes marginLeft_def)
qed

lemma stepsThenBar_layout:
  "map xPosition (bars (computeBarPositions defaultChart 0 600 stepsThenBar))
     = [50, 2222170868768337 / 70368744177664, 462952264326737 / 35184372088832,
        - (370361811461389 / 70368744177664)]"
  "map barType (bars (computeBarPositions defaultChart 0 600 stepsThenBar))
     = [Step, Step, Step, Bar]"
  "computedBarGap (computeBarPositions defaultChart 0 600 stepsThenBar)
     = Some (- (2074026144183781 / 562949953421312))"
  by (simp_all add: stepsThenBar_positioned)
     (simp_all add: stepsThenBar_def visualWith_def parsedBar_def yLoop_Cons yStep_def yInit_def
        farith rnd_exact narrow_step narrow_positions)

theorem separator_missing_in_narrow_viewport:
  "(\<exists>i. 0 < i \<and> i < length (bars (computeBarPositions defaultChart 0 600 stepsThenBar))
        \<and> barType (bars (computeBarPositions defaultChart 0 600 stepsThenBar) ! i) = Bar
        \<and> barType (bars (computeBarPositions defaultChart 0 600 stepsThenBar) ! (i - 1)) \<noteq> Bar)
   \<and> separator (renderChart defaultChart 0 600
        (computeBarPositions defaultChart 0 600 stepsThenBar)) = None"
proof -
  let ?out = "computeBarPositions defaultChart 0 600 stepsThenBar"
  have len: "length (bars ?out) = 4"
    using arg_cong[OF stepsThenBar_layout(1), of length] by simp
  have nth: "bars ?out ! i = b \<Longrightarrow> xPosition b = map xPosition (bars ?out) ! i
      \<and> barType b = map barType (bars ?out) ! i" if "i < 4" for i b
    using that len by auto
  have b3: "barType (bars ?out ! 3) = Bar" "barType (bars ?out ! 2) \<noteq> Bar"
    using nth[of 3, OF _ refl] nth[of 2, OF _ refl] by (simp_all add: stepsThenBar_layout)
  have bt: "barType (bars ?out ! 0) = Step" "barType (bars ?out ! 1) = Step"
    using nth[of 0, OF _ refl] nth[of 1, OF _ refl] by (simp_all add: stepsThenBar_layout)
  have x3: "xPosition (bars ?out ! 3) = - (370361811461389 / 70368744177664)"
    using nth[of 3, OF _ refl] by (simp add: stepsThenBar_layout)
  have gap: "orSetting (computedBarGap ?out) (barGap defaultChart)
      = - (2074026144183781 / 562949953421312)"
    by (simp add: stepsThenBar_layout orSetting_def)
  have "findSeparator (bars ?out) (- (2074026144183781 / 562949953421312)) 0
      = - (3851762839198443 / 1125899906842624)"
    using b3 bt x3 len
    by (simp add: findSeparator.simps[of _ _ 0] findSeparator.simps[of _ _ "Suc 0"]
        findSeparator.simps[of _ _ "Suc (Suc 0)"] findSeparator.simps[of _ _ "Suc (Suc (Suc 0))"]
        isBoundary_def numeral_2_eq_2 numeral_3_eq_3 farith narrow_positions)
  then have "separator (renderChart defaultChart 0 600 ?out) = None"
    by (simp add: renderChart_def Let_def gap)
  moreover have "0 < (3::nat) \<and> 3 < length (bars ?out) \<and> barType (bars ?out ! 3) = Bar
      \<and> barType (bars ?out ! (3 - 1)) \<noteq> Bar"
    using b3 len by simp
  ultimately show ?thesis by blast
qed

section \<open>Properties of the update cycle\<close>

lemma parseData_empty_iff:
  "parseData h colors dv = [] \<longleftrightarrow>
     (case categorical dv of
        None \<Rightarrow> True
      | Some c \<Rightarrow>
          (case categories c of
             None \<Rightarrow> True
           | Some cats \<Rightarrow> length cats < 2 \<or> catValues (cats ! 0) = []))"
proof (cases "categorical dv")
  case None
  then show ?thesis by (simp add: parseData_def)
next
  case (Some c)
  show ?thesis
  proof (cases "categories c")
    case None
    with Some show ?thesis by (simp add: parseData_def)
  next
    case cats: (Some cats)
    show ?thesis
    proof (cases "length cats < 2")
      case True
      with Some cats show ?thesis by (simp add: parseData_def)
    next
      case False
      then have two: "2 \<le> length cats" by simp
      have "length (parseData h colors dv) = length (catValues (cats ! 0))"
        unfolding parseData_present[OF Some cats two] sortBySequence_def
        by (simp add: rowLoop_eq)
      then have "parseData h colors dv = [] \<longleftrightarrow> catValues (cats ! 0) = []"
        by (metis length_0_conv)
      with Some cats False show ?thesis by simp
    qed
  qed
qed

lemma update_empty_iff:
  "(\<exists>w ht. snd (update h fs options this) = EmptyState w ht) \<longleftrightarrow>
     (case firstDataView options of
        None \<Rightarrow> True
      | Some dv \<Rightarrow> (case categorical dv of
                      None \<Rightarrow> True
                    | Some c \<Rightarrow> parseData h (colorSettings fs) dv = []))"
  by (simp add: update_def Let_def renderEmptyState_def split: option.splits)

lemma update_empty_untouched:
  assumes "snd (update h fs options this) = EmptyState w ht"
  shows "snd (update h fs options this)
           = EmptyState (width (viewport options)) (height (viewport options))
       \<and> computedBarWidth (fst (update h fs options this)) = computedBarWidth this
       \<and> computedBarGap (fst (update h fs options this)) = computedBarGap this
       \<and> (fst (update h fs options this) = this \<or> bars (fst (update h fs options this)) = [])"
  using assms
  by (simp add: update_def Let_def renderEmptyState_def split: option.splits if_splits)

text \<open>
  Claim C8. An update ends in the empty state if and only if there is no first data
  view, or it has no categorical part or no categories, or fewer than two categorical
  columns, or a first categorical column without rows. The empty state is then drawn for
  the size of the viewport, the computed width and gap of the layout are left as they
  were, and the bar list is either untouched or empty. For a data view, the parser
  returns the empty list in exactly the same cases.
\<close>

theorem empty_state_iff_insufficient_input:
  "((\<exists>w ht. snd (update h fs options this) = EmptyState w ht) \<longleftrightarrow>
      (case firstDataView options of
         None \<Rightarrow> True
       | Some dv \<Rightarrow>
           (case categorical dv of
              None \<Rightarrow> True
            | Some c \<Rightarrow>
                (case categories c of
                   None \<Rightarrow> True
                 | Some cats \<Rightarrow> length cats < 2 \<or> catValues (cats ! 0) = []))))
   \<and> ((\<exists>w ht. snd (update h fs options this) = EmptyState w ht) \<longrightarrow>
        snd (update h fs options this)
          = EmptyState (width (viewport options)) (height (viewport options))
        \<and> computedBarWidth (fst (update h fs options this)) = computedBarWidth this
        \<and> computedBarGap (fst (update h fs options this)) = computedBarGap this
        \<and> (fst (update h fs options this) = this \<or> bars (fst (update h fs options this)) = []))
   \<and> (parseData h colors view = [] \<longleftrightarrow>
        (case categorical view of
           None \<Rightarrow> True
         | Some c \<Rightarrow>
             (case categories c of
                None \<Rightarrow> True
              | Some cats \<Rightarrow> length cats < 2 \<or> catValues (cats ! 0) = [])))"
proof (intro conjI)
  show "(\<exists>w ht. snd (update h fs options this) = EmptyState w ht) \<longleftrightarrow>
      (case firstDataView options of
         None \<Rightarrow> True
       | Some dv \<Rightarrow>
           (case categorical dv of
              None \<Rightarrow> True
            | Some c \<Rightarrow>
                (case categories c of
                   None \<Rightarrow> True
                 | Some cats \<Rightarrow> length cats < 2 \<or> catValues (cats ! 0) = [])))"
    unfolding update_empty_iff
    by (simp add: parseData_empty_iff split: option.splits)
  show "(\<exists>w ht. snd (update h fs options this) = EmptyState w ht) \<longrightarrow>
        snd (update h fs options this)
          = EmptyState (width (viewport options)) (height (viewport options))
        \<and> computedBarWidth (fst (update h fs options this)) = computedBarWidth this
        \<and> computedBarGap (fst (update h fs options this)) = computedBarGap this
        \<and> (fst (update h fs options this) = this \<or> bars (fst (update h fs options this)) = [])"
    using update_empty_untouched by blast
  show "parseData h colors view = [] \<longleftrightarrow>
        (case categorical view of
           None \<Rightarrow> True
         | Some c \<Rightarrow>
             (case categories c of
                None \<Rightarrow> True
              | Some cats \<Rightarrow> length cats < 2 \<or> catValues (cats ! 0) = []))"
    by (rule parseData_empty_iff)
qed

theorem empty_state_iff_insufficient_input_witness:
  "snd (update plainHost defaultSettings (optionsFor oneColumn 800 600) (visualWith []))
     = EmptyState 800 600
   \<and> parseData plainHost plainColors oneColumn = []
   \<and> (\<nexists>w ht. snd (update plainHost defaultSettings (optionsFor zeroTagged 800 600)
                     (visualWith [])) = EmptyState w ht)"
proof -
  note inst = empty_state_iff_insufficient_input[of plainHost defaultSettings _ "visualWith []"
      plainColors]
  have one: "(case firstDataView (optionsFor oneColumn 800 600) of
         None \<Rightarrow> True
       | Some dv \<Rightarrow>
           (case categorical dv of
              None \<Rightarrow> True
            | Some c \<Rightarrow>
                (case categories c of
                   None \<Rightarrow> True
                 | Some cats \<Rightarrow> length cats < 2 \<or> catValues (cats ! 0) = [])))"
    by (simp add: firstDataView_def optionsFor_def oneColumn_def tableOf_def)
  have two: "\<not> (case firstDataView (optionsFor zeroTagged 800 600) of
         None \<Rightarrow> True
       | Some dv \<Rightarrow>
           (case categorical dv of
              None \<Rightarrow> True
            | Some c \<Rightarrow>
                (case categories c of
                   None \<Rightarrow> True
                 | Some cats \<Rightarrow> length cats < 2 \<or> catValues (cats ! 0) = [])))"
    by (simp add: firstDataView_def optionsFor_def zeroTagged_def tableOf_def)
  have view: "(case categorical oneColumn of
           None \<Rightarrow> True
         | Some c \<Rightarrow>
             (case categories c of
                None \<Rightarrow> True
              | Some cats \<Rightarrow> length cats < 2 \<or> catValues (cats ! 0) = []))"
    by (simp add: oneColumn_def tableOf_def)
  from inst[of "optionsFor oneColumn 800 600" oneColumn] one view
  have "snd (update plainHost defaultSettings (optionsFor oneColumn 800 600) (visualWith []))
      = EmptyState (width (viewport (optionsFor oneColumn 800 600)))
          (height (viewport (optionsFor oneColumn 800 600)))"
    and "parseData plainHost plainColors oneColumn = []"
    by blast+
  moreover from inst[of "optionsFor zeroTagged 800 600" oneColumn] two
  have "\<nexists>w ht. snd (update plainHost defaultSettings (optionsFor zeroTagged 800 600)
                     (visualWith [])) = EmptyState w ht"
    by blast
  ultimately show ?thesis
    by (simp add: optionsFor_def)
qed


end
